theory Spec2Isabelle
  imports Complex_Main "HOL-Library.Product_Lexorder"
begin

section \<open>Tabular data\<close>

text \<open>
  The scripts keep their data in pandas data frames. A frame is modelled as the list of
  its rows, a row as a record of the columns the code reads. A missing cell (NaN) is
  \<open>None\<close>. Numeric cells are real numbers: the arithmetic of the model is exact, where
  the program computes in 64-bit floating point.
\<close>

record review =
  country :: "string option"
  points :: "real option"
  price :: "real option"
  variety :: "string option"
  title :: "string option"

type_synonym sheet = "string list list"

text \<open>The values of a column that are present, in row order (\<open>skipna\<close>).\<close>

fun present :: "'a option list \<Rightarrow> 'a list" where
  "present [] = []"
| "present (None # xs) = present xs"
| "present (Some v # xs) = v # present xs"

text \<open>\<open>Series.mean()\<close>: the mean of the present values, NaN when there is none.\<close>

definition mean :: "real option list \<Rightarrow> real option" where
  "mean col =
     (let vs = present col
      in if vs = [] then None else Some (sum_list vs / real (length vs)))"

text \<open>\<open>Series.min()\<close> and \<open>Series.max()\<close>, NaN on a column with no present value.\<close>

definition series_min :: "real option list \<Rightarrow> real option" where
  "series_min col = (case present col of [] \<Rightarrow> None | v # vs \<Rightarrow> Some (fold min vs v))"

definition series_max :: "real option list \<Rightarrow> real option" where
  "series_max col = (case present col of [] \<Rightarrow> None | v # vs \<Rightarrow> Some (fold max vs v))"

text \<open>
  \<open>Series.value_counts()\<close>: the distinct present values with their number of
  occurrences, most frequent first. Values of equal frequency are kept in the order of
  their first occurrence (a stable sort).
\<close>

definition first_seen :: "'a list \<Rightarrow> 'a list" where
  "first_seen xs = rev (remdups (rev xs))"

definition value_counts :: "'a option list \<Rightarrow> ('a \<times> nat) list" where
  "value_counts col =
     (let vs = present col
      in sort_key (\<lambda>kc. - int (snd kc)) (map (\<lambda>k. (k, count_list vs k)) (first_seen vs)))"

text \<open>\<open>head(n)\<close> is \<open>take n\<close>.\<close>

section \<open>data\_processor.py\<close>

text \<open>
  Reading a file is the only contact with the outside. The file system is a parameter:
  for each path, what \<open>pd.read_csv\<close> and \<open>pd.read_excel\<close> do there, either
  raise or return the whole frame. A raised exception is the \<open>Inl\<close> of a result.
  Printed lines are returned as a list of messages.
\<close>

datatype exn =
  FileNotFoundError | ParserError | ValueError | ZeroDivisionError | TypeError
  | OtherError string

text \<open>
  A file is named by a string or by a \<open>pathlib.Path\<close>. A path is the list of its
  parts (on a POSIX system): the root, when the string starts with a slash, and the
  components between the slashes, the empty ones and \<open>.\<close> left out. The operator
  \<open>/\<close> with a plain file name adds a part.
\<close>

datatype location = Str string | Path "string list"

fun split_on :: "char \<Rightarrow> string \<Rightarrow> string list" where
  "split_on c [] = [[]]"
| "split_on c (x # xs) =
     (if x = c then [] # split_on c xs
      else (case split_on c xs of p # ps \<Rightarrow> (x # p) # ps | [] \<Rightarrow> [[x]]))"

definition path_parts :: "string \<Rightarrow> string list" where
  "path_parts s =
     (if take 2 s = ''//'' \<and> take 3 s \<noteq> ''///'' then [''//'']
      else if take 1 s = ''/'' then [''/''] else [])
     @ filter (\<lambda>p. p \<noteq> [] \<and> p \<noteq> ''.'') (split_on CHR ''/'' s)"

record files =
  read_csv :: "location \<Rightarrow> exn + review list"
  read_excel :: "location \<Rightarrow> exn + sheet"

datatype message = Loaded nat | BrazilianFound nat | Cleaned nat | LoadFailed exn

record processor =
  data_path :: "string list"
  wine_reviews :: "review list option"
  embrapa_data :: "sheet option"

definition init_processor :: "string \<Rightarrow> processor" where
  "init_processor p =
     \<lparr>data_path = path_parts p, wine_reviews = None, embrapa_data = None\<rparr>"

text \<open>
  \<open>try: body except Exception as e: handler\<close>, for a body whose effects all come
  after the last statement that can raise: the handler's result stands in for any
  exception of the body.
\<close>

definition try_except :: "exn + 'a \<Rightarrow> (exn \<Rightarrow> 'a) \<Rightarrow> exn + 'a" where
  "try_except body handler = (case body of Inr r \<Rightarrow> Inr r | Inl e \<Rightarrow> Inr (handler e))"

text \<open>
  \<open>load_wine_reviews\<close>: the body of the \<open>try\<close> assigns the frame, prints its size
  and returns it; the handler prints the error and returns \<open>None\<close>, leaving the field
  as it was.
\<close>

definition reviews_path :: "processor \<Rightarrow> location" where
  "reviews_path self = Path (data_path self @ [''winemag-data-130k-v2.csv''])"

definition embrapa_path :: "processor \<Rightarrow> location" where
  "embrapa_path self = Path (data_path self @ [''embrapa e OIV(Definitiva 2.0).CSV (2).xlsx''])"

definition load_wine_reviews ::
  "files \<Rightarrow> processor \<Rightarrow> exn + processor \<times> message list \<times> review list option" where
  "load_wine_reviews fs self =
     try_except
       (case read_csv fs (reviews_path self) of
          Inl e \<Rightarrow> Inl e
        | Inr df \<Rightarrow> Inr (self\<lparr>wine_reviews := Some df\<rparr>, [Loaded (length df)], Some df))
       (\<lambda>e. (self, [LoadFailed e], None))"

definition load_embrapa_data ::
  "files \<Rightarrow> processor \<Rightarrow> exn + processor \<times> message list \<times> sheet option" where
  "load_embrapa_data fs self =
     try_except
       (case read_excel fs (embrapa_path self) of
          Inl e \<Rightarrow> Inl e
        | Inr df \<Rightarrow> Inr (self\<lparr>embrapa_data := Some df\<rparr>, [Loaded (length df)], Some df))
       (\<lambda>e. (self, [LoadFailed e], None))"

record analysis =
  total_reviews :: nat
  avg_points :: "real option"
  avg_price :: "real option"
  price_range :: "real option \<times> real option"
  top_varieties :: "(string \<times> nat) list"

definition brazilian :: "review list \<Rightarrow> review list" where
  "brazilian df = filter (\<lambda>r. country r = Some ''Brazil'') df"

definition analyse_frame :: "review list \<Rightarrow> analysis" where
  "analyse_frame df =
     (let brazilian_wines = brazilian df
      in \<lparr>total_reviews = length brazilian_wines,
          avg_points = mean (map points brazilian_wines),
          avg_price = mean (map price brazilian_wines),
          price_range = (series_min (map price brazilian_wines),
                         series_max (map price brazilian_wines)),
          top_varieties = take 10 (value_counts (map variety brazilian_wines))\<rparr>)"

text \<open>
  \<open>analyze_wine_reviews\<close> loads the reviews when the field is still \<open>None\<close>, and
  returns \<open>None\<close> when it still is after that.
\<close>

definition analyze_wine_reviews ::
  "files \<Rightarrow> processor \<Rightarrow> exn + processor \<times> message list \<times> analysis option" where
  "analyze_wine_reviews fs self =
     (case (case wine_reviews self of
              None \<Rightarrow> (case load_wine_reviews fs self of
                          Inl e \<Rightarrow> Inl e
                        | Inr (s, msgs, _) \<Rightarrow> Inr (s, msgs))
            | Some _ \<Rightarrow> Inr (self, [])) of
        Inl e \<Rightarrow> Inl e
      | Inr (self1, out) \<Rightarrow>
          (case wine_reviews self1 of
             Some df \<Rightarrow> Inr (self1, out, Some (analyse_frame df))
           | None \<Rightarrow> Inr (self1, out, None)))"

section \<open>wine\_trends\_analysis.py: cleaning\<close>

text \<open>
  \<open>Series.quantile(q)\<close> with pandas' default linear interpolation: on the sorted
  present values \<open>s\<close> of length \<open>n\<close>, the position is \<open>h = (n - 1) * q\<close> and the
  result lies between \<open>s[floor h]\<close> and its successor, at the fraction \<open>h - floor h\<close>.
  NaN on a column with no present value.
\<close>

definition quantile :: "real option list \<Rightarrow> real \<Rightarrow> real option" where
  "quantile col q =
     (let s = sort (present col); n = length s
      in if n = 0 then None
         else let h = real (n - 1) * q; i = nat \<lfloor>h\<rfloor>; j = min (i + 1) (n - 1)
              in Some (s ! i + (h - real i) * (s ! j - s ! i)))"

text \<open>
  Arithmetic and comparisons with NaN: an operation on NaN is NaN, a comparison with NaN
  is false.
\<close>

definition nan_minus :: "real option \<Rightarrow> real option \<Rightarrow> real option" where
  "nan_minus a b = (case (a, b) of (Some x, Some y) \<Rightarrow> Some (x - y) | _ \<Rightarrow> None)"

definition nan_plus :: "real option \<Rightarrow> real option \<Rightarrow> real option" where
  "nan_plus a b = (case (a, b) of (Some x, Some y) \<Rightarrow> Some (x + y) | _ \<Rightarrow> None)"

definition nan_scale :: "real \<Rightarrow> real option \<Rightarrow> real option" where
  "nan_scale c a = (case a of Some x \<Rightarrow> Some (c * x) | None \<Rightarrow> None)"

definition nan_ge :: "real option \<Rightarrow> real option \<Rightarrow> bool" where
  "nan_ge a b = (case (a, b) of (Some x, Some y) \<Rightarrow> y \<le> x | _ \<Rightarrow> False)"

definition nan_le :: "real option \<Rightarrow> real option \<Rightarrow> bool" where
  "nan_le a b = (case (a, b) of (Some x, Some y) \<Rightarrow> x \<le> y | _ \<Rightarrow> False)"

text \<open>
  \<open>pd.cut(x, bins, labels)\<close> with its defaults \<open>right=True\<close> and
  \<open>include_lowest=False\<close>: the intervals are \<open>(bins[i], bins[i+1]]\<close>, open on the
  left and closed on the right; a value in none of them, and NaN, get no label. An edge
  is a number or \<open>float('inf')\<close>. pandas raises \<open>ValueError\<close> when the edges do not
  increase or the labels are not one fewer than the edges.
\<close>

datatype edge = Fin real | PInf

fun above :: "edge \<Rightarrow> real \<Rightarrow> bool" where
  "above (Fin a) v = (a < v)"
| "above PInf v = False"

fun upto_edge :: "real \<Rightarrow> edge \<Rightarrow> bool" where
  "upto_edge v (Fin b) = (v \<le> b)"
| "upto_edge v PInf = True"

fun edge_less :: "edge \<Rightarrow> edge \<Rightarrow> bool" where
  "edge_less (Fin a) (Fin b) = (a < b)"
| "edge_less (Fin a) PInf = True"
| "edge_less PInf e = False"

fun increasing :: "edge list \<Rightarrow> bool" where
  "increasing (a # b # es) = (edge_less a b \<and> increasing (b # es))"
| "increasing es = True"

fun bucket :: "edge list \<Rightarrow> 'l list \<Rightarrow> real \<Rightarrow> 'l option" where
  "bucket (lo # hi # es) (l # ls) v =
     (if above lo v \<and> upto_edge v hi then Some l else bucket (hi # es) ls v)"
| "bucket es ls v = None"

definition cut_cell :: "edge list \<Rightarrow> 'l list \<Rightarrow> real option \<Rightarrow> 'l option" where
  "cut_cell bins labels c = (case c of None \<Rightarrow> None | Some v \<Rightarrow> bucket bins labels v)"

definition pd_cut :: "real option list \<Rightarrow> edge list \<Rightarrow> 'l list \<Rightarrow> exn + 'l option list" where
  "pd_cut col bins labels =
     (if \<not> increasing bins then Inl ValueError
      else if length labels + 1 \<noteq> length bins then Inl ValueError
      else Inr (map (cut_cell bins labels) col))"

text \<open>The value lies in the \<open>i\<close>-th interval of the edges.\<close>

definition in_bin :: "edge list \<Rightarrow> nat \<Rightarrow> real \<Rightarrow> bool" where
  "in_bin bins i v = (above (bins ! i) v \<and> upto_edge v (bins ! (i + 1)))"

text \<open>
  The labels of the price categories stand for the strings
  \<open>Economico (<$15)\<close>, \<open>Medio ($15-30)\<close>, \<open>Premium ($30-50)\<close>,
  \<open>Super Premium ($50-100)\<close>, \<open>Ultra Premium (>$100)\<close>; those of the rating
  categories for \<open>Aceitavel (80-82)\<close>, \<open>Bom (83-87)\<close>, \<open>Muito Bom (88-90)\<close>,
  \<open>Excelente (91-95)\<close>, \<open>Excepcional (96-100)\<close>.
\<close>

datatype price_label = Economico | Medio | Premium | Super_Premium | Ultra_Premium

datatype rating_label = Aceitavel | Bom | Muito_Bom | Excelente | Excepcional

definition price_bins :: "edge list" where
  "price_bins = [Fin 0, Fin 15, Fin 30, Fin 50, Fin 100, PInf]"

definition price_labels :: "price_label list" where
  "price_labels = [Economico, Medio, Premium, Super_Premium, Ultra_Premium]"

definition rating_bins :: "edge list" where
  "rating_bins = [Fin 0, Fin 82, Fin 87, Fin 90, Fin 95, Fin 100]"

definition rating_labels :: "rating_label list" where
  "rating_labels = [Aceitavel, Bom, Muito_Bom, Excelente, Excepcional]"

record wine = review +
  price_category :: "price_label option"
  rating_category :: "rating_label option"

text \<open>The three steps of \<open>clean_data\<close>, in the order of the code.\<close>

definition dropna :: "review list \<Rightarrow> review list" where
  "dropna df = filter (\<lambda>r. points r \<noteq> None \<and> price r \<noteq> None) df"

definition remove_outliers :: "review list \<Rightarrow> review list" where
  "remove_outliers df =
     (let Q1 = quantile (map price df) 0.25;
          Q3 = quantile (map price df) 0.75;
          IQR = nan_minus Q3 Q1;
          lower_bound = nan_minus Q1 (nan_scale 1.5 IQR);
          upper_bound = nan_plus Q3 (nan_scale 1.5 IQR)
      in filter (\<lambda>r. nan_ge (price r) lower_bound \<and> nan_le (price r) upper_bound) df)"

definition with_categories ::
  "review \<Rightarrow> price_label option \<Rightarrow> rating_label option \<Rightarrow> wine" where
  "with_categories r pc rc =
     \<lparr>country = country r, points = points r, price = price r, variety = variety r,
      title = title r, price_category = pc, rating_category = rc\<rparr>"

definition categorise :: "review list \<Rightarrow> exn + wine list" where
  "categorise df =
     (case pd_cut (map price df) price_bins price_labels of
        Inl e \<Rightarrow> Inl e
      | Inr pcs \<Rightarrow>
          (case pd_cut (map points df) rating_bins rating_labels of
             Inl e \<Rightarrow> Inl e
           | Inr rcs \<Rightarrow> Inr (map (\<lambda>(r, pc, rc). with_categories r pc rc) (zip df (zip pcs rcs)))))"

definition clean_data :: "review list \<Rightarrow> exn + wine list \<times> message list" where
  "clean_data df =
     (case categorise (remove_outliers (dropna df)) of
        Inl e \<Rightarrow> Inl e
      | Inr d \<Rightarrow> Inr (d, [Cleaned (length d)]))"

record analyzer =
  wine_data :: "wine list option"
  brazilian_wines :: "review list option"

definition init_analyzer :: analyzer where
  "init_analyzer = \<lparr>wine_data = None, brazilian_wines = None\<rparr>"

text \<open>
  \<open>load_data\<close> reads the fixed file, keeps the Brazilian rows of the raw frame, cleans
  the frame and returns \<open>True\<close>; the handler prints the error and returns \<open>False\<close>.
\<close>

definition load_data :: "files \<Rightarrow> analyzer \<Rightarrow> exn + analyzer \<times> message list \<times> bool" where
  "load_data fs self =
     try_except
       (case read_csv fs (Str ''raw-data/winemag-data-130k-v2.csv'') of
          Inl e \<Rightarrow> Inl e
        | Inr df \<Rightarrow>
            (case clean_data df of
               Inl e \<Rightarrow> Inl e
             | Inr (d, msgs) \<Rightarrow>
                 Inr (\<lparr>wine_data = Some d, brazilian_wines = Some (brazilian df)\<rparr>,
                      [Loaded (length df), BrazilianFound (length (brazilian df))] @ msgs,
                      True)))
       (\<lambda>e. (self, [LoadFailed e], False))"

section \<open>wine\_trends\_analysis.py: analyses\<close>

text \<open>
  \<open>Series.corr\<close> (Pearson) keeps the rows where both cells are present and returns
  NaN when none is left; otherwise it is \<open>np.corrcoef\<close>: the covariance matrix with
  \<open>n - 1\<close> in the denominator, divided by the two standard deviations and clipped to
  \<open>[-1, 1]\<close>. A division of zero by zero is NaN: that is the result for a single row
  and for a column of zero variance.
\<close>

fun paired :: "real option list \<Rightarrow> real option list \<Rightarrow> (real \<times> real) list" where
  "paired (Some a # xs) (Some b # ys) = (a, b) # paired xs ys"
| "paired (x # xs) (y # ys) = paired xs ys"
| "paired xs ys = []"

definition avg :: "real list \<Rightarrow> real" where
  "avg vs = sum_list vs / real (length vs)"

text \<open>The sum of the products of the deviations from the two means.\<close>

definition cross :: "real list \<Rightarrow> real list \<Rightarrow> real" where
  "cross xs ys = sum_list (map (\<lambda>(a, b). (a - avg xs) * (b - avg ys)) (zip xs ys))"

definition covariance :: "real list \<Rightarrow> real list \<Rightarrow> real" where
  "covariance xs ys = cross xs ys / (real (length xs) - 1)"

definition clip :: "real \<Rightarrow> real \<Rightarrow> real \<Rightarrow> real" where
  "clip lo hi x = min hi (max lo x)"

definition corr :: "real option list \<Rightarrow> real option list \<Rightarrow> real option" where
  "corr col_a col_b =
     (let ps = paired col_a col_b; xs = map fst ps; ys = map snd ps
      in if length ps < 2 then None
         else if covariance xs xs = 0 \<or> covariance ys ys = 0 then None
         else Some (clip (-1) 1
                (covariance xs ys / sqrt (covariance xs xs) / sqrt (covariance ys ys))))"

text \<open>
  The aggregations of \<open>groupby(...).agg\<close>: \<open>count\<close> counts the present cells,
  \<open>std\<close> is the sample standard deviation (NaN under two values), \<open>median\<close> the
  middle of the sorted values. \<open>round(2)\<close> rounds a float to two decimals, halves to
  the even neighbour.
\<close>

definition count :: "'a option list \<Rightarrow> nat" where
  "count col = length (present col)"

definition std :: "real option list \<Rightarrow> real option" where
  "std col =
     (let vs = present col
      in if length vs < 2 then None
         else Some (sqrt (sum_list (map (\<lambda>v. (v - avg vs)\<^sup>2) vs) / (real (length vs) - 1))))"

definition median :: "real option list \<Rightarrow> real option" where
  "median col =
     (let s = sort (present col); n = length s
      in if n = 0 then None
         else if odd n then Some (s ! (n div 2))
         else Some ((s ! (n div 2 - 1) + s ! (n div 2)) / 2))"

definition rint :: "real \<Rightarrow> int" where
  "rint y =
     (let f = \<lfloor>y\<rfloor>; d = y - of_int f
      in if d < 1 / 2 then f else if 1 / 2 < d then f + 1 else if even f then f else f + 1)"

definition round2 :: "real \<Rightarrow> real" where
  "round2 x = of_int (rint (x * 100)) / 100"

record group_stats =
  points_mean :: "real option"
  points_std :: "real option"
  points_count :: nat
  price_mean :: "real option"
  price_median :: "real option"

text \<open>
  \<open>groupby('price_category')\<close> on the categorical column: one group per category, in
  the order of the categories, an empty one included; a row without a category is in no
  group.
\<close>

definition group_of :: "wine list \<Rightarrow> price_label \<Rightarrow> wine list" where
  "group_of d l = filter (\<lambda>r. price_category r = Some l) d"

definition agg :: "wine list \<Rightarrow> group_stats" where
  "agg g =
     \<lparr>points_mean = map_option round2 (mean (map points g)),
      points_std = map_option round2 (std (map points g)),
      points_count = count (map points g),
      price_mean = map_option round2 (mean (map price g)),
      price_median = map_option round2 (median (map price g))\<rparr>"

definition price_analysis :: "wine list \<Rightarrow> (price_label \<times> group_stats) list" where
  "price_analysis d = map (\<lambda>l. (l, agg (group_of d l))) price_labels"

text \<open>
  \<open>analyze_price_quality_relationship\<close> returns the correlation of price and points
  and the table of the groups. Its charts and printed lines are left out.
\<close>

definition analyze_price_quality_relationship ::
  "wine list \<Rightarrow> real option \<times> (price_label \<times> group_stats) list" where
  "analyze_price_quality_relationship d =
     (corr (map price d) (map points d), price_analysis d)"

text \<open>
  The quotient of two float columns. A quotient too large for a float is an infinity of
  its sign (rounding to nearest, from \<open>2 ^ 1024 - 2 ^ 970\<close> on). A division by
  zero gives an infinity whose sign is the numerator's for a divisor \<open>0.0\<close> and the
  opposite one for a divisor \<open>-0.0\<close>; zero by zero and anything with NaN give NaN. A
  real number has no signed zero, so whether the divisor is \<open>-0.0\<close> when it is zero is
  an argument of its own.
\<close>

datatype ratio = Ratio real | Infinite | Neg_Infinite | Not_A_Number

definition overflows :: "real \<Rightarrow> bool" where
  "overflows x = (2 ^ 1024 - 2 ^ 970 \<le> \<bar>x\<bar>)"

fun fdiv :: "bool \<Rightarrow> real option \<Rightarrow> real option \<Rightarrow> ratio" where
  "fdiv negative_zero (Some a) (Some b) =
     (if b \<noteq> 0
      then (if overflows (a / b) then (if 0 < a / b then Infinite else Neg_Infinite)
            else Ratio (a / b))
      else if a = 0 then Not_A_Number
      else if (0 < a) \<noteq> negative_zero then Infinite else Neg_Infinite)"
| "fdiv negative_zero a b = Not_A_Number"

record scored = wine +
  value_score :: ratio

definition with_score :: "wine \<Rightarrow> ratio \<Rightarrow> scored" where
  "with_score r s =
     \<lparr>country = country r, points = points r, price = price r, variety = variety r,
      title = title r, price_category = price_category r,
      rating_category = rating_category r, value_score = s\<rparr>"

text \<open>
  \<open>nlargest(n, 'value_score')\<close>: the rows in descending order of the score, rows of
  equal score in their original order, NaN last; the first \<open>n\<close> of them. The key sorts
  ascending in that order.
\<close>

fun descending :: "ratio \<Rightarrow> nat \<times> real" where
  "descending Infinite = (0, 0)"
| "descending (Ratio a) = (1, - a)"
| "descending Neg_Infinite = (2, 0)"
| "descending Not_A_Number = (3, 0)"

definition nlargest :: "nat \<Rightarrow> scored list \<Rightarrow> scored list" where
  "nlargest n df = take n (sort_key (\<lambda>r. descending (value_score r)) df)"

text \<open>
  The loop over the ten most frequent countries: a correlation is recorded for a country
  when \<open>len(country_data) > 50\<close>.
\<close>

fun country_loop :: "wine list \<Rightarrow> string list \<Rightarrow> (string \<times> real option \<times> nat) list" where
  "country_loop d [] = []"
| "country_loop d (c # cs) =
     (let country_data = filter (\<lambda>r. country r = Some c) d
      in if length country_data > 50
         then (c, corr (map price country_data) (map points country_data), length country_data)
              # country_loop d cs
         else country_loop d cs)"

definition top_countries :: "wine list \<Rightarrow> string list" where
  "top_countries d = map fst (take 10 (value_counts (map country d)))"

text \<open>
  \<open>correlations.sort(key=lambda x: x[1], reverse=True)\<close>: descending by the
  correlation, stable. Python's comparisons with NaN are all false, so the place of a
  NaN entry depends on the run of the sort; the model puts such entries last.
\<close>

fun by_corr :: "string \<times> real option \<times> nat \<Rightarrow> nat \<times> real" where
  "by_corr (c, Some r, n) = (0, - r)"
| "by_corr (c, None, n) = (1, 0)"

text \<open>
  \<open>value_counts\<close> of the categorical column lists every category, with 0 for one that
  does not occur.
\<close>

definition category_counts :: "wine list \<Rightarrow> (price_label \<times> nat) list" where
  "category_counts d =
     sort_key (\<lambda>kc. - int (snd kc)) (map (\<lambda>l. (l, length (group_of d l))) price_labels)"

record trends =
  sweet_spot :: "wine list"
  best_premium :: "scored list"
  price_distribution :: "(price_label \<times> nat) list"
  country_correlations :: "(string \<times> real option \<times> nat) list"

text \<open>
  \<open>identify_purchase_trends\<close>. Of its printed report the model keeps what can raise:
  the share of the sweet spot divides by the number of rows, and the listing of the best
  premium wines slices each title, which fails on a missing one. The argument
  \<open>negative_zero\<close> tells, for each position of the frame, whether a zero price there
  is the float \<open>-0.0\<close>.
\<close>

definition premium_value :: "(nat \<Rightarrow> bool) \<Rightarrow> wine list \<Rightarrow> scored list" where
  "premium_value negative_zero d =
     map (\<lambda>(i, r). with_score r (fdiv (negative_zero i) (points r) (price r)))
       (filter (\<lambda>(i, r). nan_ge (points r) (Some 90)) (enumerate 0 d))"

definition identify_purchase_trends :: "(nat \<Rightarrow> bool) \<Rightarrow> wine list \<Rightarrow> exn + trends" where
  "identify_purchase_trends negative_zero d =
     (if length d = 0 then Inl ZeroDivisionError
      else let best = nlargest 10 (premium_value negative_zero d)
           in if list_ex (\<lambda>w. title w = None) best then Inl TypeError
              else Inr \<lparr>sweet_spot =
                          filter (\<lambda>r. nan_ge (points r) (Some 88) \<and> nan_le (price r) (Some 30)) d,
                        best_premium = best,
                        price_distribution = category_counts d,
                        country_correlations =
                          sort_key by_corr (country_loop d (top_countries d))\<rparr>)"

section \<open>wine\_export\_analysis.py: the mock data\<close>

text \<open>
  The generator draws from numpy's global random source. The source is a parameter: an
  infinite sequence of raw variates and the position of the next one. \<open>normal\<close> scales
  and shifts a standard normal variate, \<open>uniform\<close> and \<open>randint\<close> a variate of
  \<open>[0, 1)\<close>. Nothing is assumed of the variates, so a property proved for every source
  holds for every outcome of the draws.
\<close>

record rng =
  draws :: "nat \<Rightarrow> real"
  pos :: nat

definition next_draw :: "rng \<Rightarrow> real \<times> rng" where
  "next_draw g = (draws g (pos g), g\<lparr>pos := pos g + 1\<rparr>)"

definition normal :: "real \<Rightarrow> real \<Rightarrow> rng \<Rightarrow> real \<times> rng" where
  "normal mu sigma g = (let (z, g1) = next_draw g in (mu + sigma * z, g1))"

definition uniform :: "real \<Rightarrow> real \<Rightarrow> rng \<Rightarrow> real \<times> rng" where
  "uniform lo hi g = (let (u, g1) = next_draw g in (lo + (hi - lo) * u, g1))"

definition randint :: "int \<Rightarrow> int \<Rightarrow> rng \<Rightarrow> int \<times> rng" where
  "randint lo hi g = (let (u, g1) = next_draw g in (lo + \<lfloor>of_int (hi - lo) * u\<rfloor>, g1))"

text \<open>
  Rows of the five frames. Every frame has the column \<open>ano\<close>; the yearly totals and
  the export rows share \<open>volume_litros\<close> and \<open>valor_usd\<close>.
\<close>

record yearly =
  ano :: int

record totals = yearly +
  volume_litros :: real
  valor_usd :: real

record export_row = totals +
  pais_destino :: string

record climate_row = yearly +
  temperatura_media :: real
  precipitacao_mm :: real
  dias_sol :: real

record demographic_row = yearly +
  populacao_brasil :: int
  renda_per_capita :: real

record economic_row = yearly +
  pib_brasil :: int
  taxa_cambio_usd_brl :: real
  inflacao :: real

record rating_row = yearly +
  pontuacao_media :: real
  num_avaliacoes :: int
  preco_medio_garrafa :: real

text \<open>
  The destination countries. A character is a byte: the accented letters of
  \<open>Canada\<close>, \<open>Franca\<close> and \<open>Japao\<close> in the source are the two bytes of their
  UTF-8 encoding.
\<close>

definition countries :: "string list" where
  "countries = [''Estados Unidos'', ''Reino Unido'', ''Alemanha'',
                ''Canad'' @ [CHR 0xC3, CHR 0xA1],
                ''Fran'' @ [CHR 0xC3, CHR 0xA7] @ ''a'',
                ''Jap'' @ [CHR 0xC3, CHR 0xA3] @ ''o'',
                ''China'', ''Argentina'', ''Paraguai'', ''Uruguai'']"

definition years :: "int list" where
  "years = [2009, 2010, 2011, 2012, 2013, 2014, 2015, 2016, 2017, 2018, 2019, 2020, 2021,
            2022, 2023]"

text \<open>
  \<open>for k in ks: rows.append(entry(k))\<close>, the random source threaded through the
  iterations.
\<close>

fun for_each :: "('k \<Rightarrow> rng \<Rightarrow> 'r \<times> rng) \<Rightarrow> 'k list \<Rightarrow> rng \<Rightarrow> 'r list \<times> rng" where
  "for_each entry [] g = ([], g)"
| "for_each entry (k # ks) g =
     (let (r, g1) = entry k g; (rs, g2) = for_each entry ks g1 in (r # rs, g2))"

definition export_entry :: "int \<Rightarrow> string \<Rightarrow> rng \<Rightarrow> export_row \<times> rng" where
  "export_entry year dest g =
     (let (base_volume, g1) = normal 1000000 200000 g;
          (noise, g2) = normal 0 0.1 g1;
          growth_factor = 1 + of_int (year - 2009) * 0.05 + noise;
          volume = max 0 (base_volume * growth_factor);
          (base_price, g3) = uniform 2.5 8.0 g2;
          price_factor = 1 + of_int (year - 2009) * 0.03;
          price_per_liter = base_price * price_factor
      in (\<lparr>ano = year, volume_litros = volume, valor_usd = volume * price_per_liter,
           pais_destino = dest\<rparr>, g3))"

text \<open>The nested loops: for each year, for each country.\<close>

fun export_loop :: "int list \<Rightarrow> rng \<Rightarrow> export_row list \<times> rng" where
  "export_loop [] g = ([], g)"
| "export_loop (year # ys) g =
     (let (rows, g1) = for_each (export_entry year) countries g;
          (rest, g2) = export_loop ys g1
      in (rows @ rest, g2))"

definition climate_entry :: "int \<Rightarrow> rng \<Rightarrow> climate_row \<times> rng" where
  "climate_entry year g =
     (let (t, g1) = normal 25 2 g;
          (p, g2) = normal 1200 200 g1;
          (s, g3) = normal 250 30 g2
      in (\<lparr>ano = year, temperatura_media = t, precipitacao_mm = p, dias_sol = s\<rparr>, g3))"

definition demographic_entry :: "int \<Rightarrow> rng \<Rightarrow> demographic_row \<times> rng" where
  "demographic_entry year g =
     (let (e, g1) = normal 0 500 g
      in (\<lparr>ano = year, populacao_brasil = 200000000 + (year - 2009) * 2000000,
           renda_per_capita = 8000 + of_int ((year - 2009) * 200) + e\<rparr>, g1))"

definition economic_entry :: "int \<Rightarrow> rng \<Rightarrow> economic_row \<times> rng" where
  "economic_entry year g =
     (let (t, g1) = uniform 1.8 5.5 g;
          (i, g2) = uniform 2 12 g1
      in (\<lparr>ano = year, pib_brasil = 2000000000000 + (year - 2009) * 50000000000,
           taxa_cambio_usd_brl = t, inflacao = i\<rparr>, g2))"

definition rating_entry :: "int \<Rightarrow> rng \<Rightarrow> rating_row \<times> rng" where
  "rating_entry year g =
     (let (p, g1) = uniform 82 92 g;
          (n, g2) = randint 500 2000 g1;
          (b, g3) = uniform 15 45 g2
      in (\<lparr>ano = year, pontuacao_media = p, num_avaliacoes = n, preco_medio_garrafa = b\<rparr>,
          g3))"

record exporter =
  export_data :: "export_row list option"
  climate_data :: "climate_row list option"
  demographic_data :: "demographic_row list option"
  economic_data :: "economic_row list option"
  wine_ratings :: "rating_row list option"

definition init_exporter :: exporter where
  "init_exporter =
     \<lparr>export_data = None, climate_data = None, demographic_data = None,
      economic_data = None, wine_ratings = None\<rparr>"

definition generate_mock_data :: "rng \<Rightarrow> exporter \<Rightarrow> exporter \<times> rng" where
  "generate_mock_data g self =
     (let (exports, g1) = export_loop years g;
          (climate, g2) = for_each climate_entry years g1;
          (demographic, g3) = for_each demographic_entry years g2;
          (economic, g4) = for_each economic_entry years g3;
          (ratings, g5) = for_each rating_entry years g4
      in (\<lparr>export_data = Some exports, climate_data = Some climate,
           demographic_data = Some demographic, economic_data = Some economic,
           wine_ratings = Some ratings\<rparr>, g5))"

section \<open>wine\_export\_analysis.py: the projections\<close>

text \<open>
  \<open>PolynomialFeatures(degree=2)\<close> maps the single predictor \<open>x\<close> to the row
  \<open>[1, x, x\<^sup>2]\<close>.
\<close>

definition poly_features :: "real \<Rightarrow> real list" where
  "poly_features x = [1, x, x\<^sup>2]"

record linear_model =
  coef :: "real list"
  intercept :: real

text \<open>
  \<open>LinearRegression().fit(X, y)\<close> on a design of that shape, in exact arithmetic. The
  regression centres the columns and the target, takes the least-squares solution of
  least norm for the centred columns, and sets the intercept from the means. The centred
  constant column is zero, so its coefficient is 0; for the other two columns the
  solution is that of the normal equations when their determinant is not zero, and the
  least-norm one otherwise. No sample at all is a \<open>ValueError\<close>.
\<close>

definition fit :: "real list list \<Rightarrow> real list \<Rightarrow> exn + linear_model" where
  "fit X y =
     (if X = [] then Inl ValueError
      else let us = map (\<lambda>row. row ! 1) X; ws = map (\<lambda>row. row ! 2) X;
               Suu = cross us us; Suw = cross us ws; Sww = cross ws ws;
               Suy = cross us y; Swy = cross ws y;
               det = Suu * Sww - Suw * Suw;
               (c1, c2) =
                 (if det \<noteq> 0
                  then ((Suy * Sww - Swy * Suw) / det, (Swy * Suu - Suy * Suw) / det)
                  else if Suu + Sww \<noteq> 0 then (Suy / (Suu + Sww), Swy / (Suu + Sww))
                  else (0, 0))
           in Inr \<lparr>coef = [0, c1, c2], intercept = avg y - c1 * avg us - c2 * avg ws\<rparr>)"

definition dot :: "real list \<Rightarrow> real list \<Rightarrow> real" where
  "dot a b = sum_list (map (\<lambda>(p, q). p * q) (zip a b))"

definition predict :: "linear_model \<Rightarrow> real list list \<Rightarrow> real list" where
  "predict m X = map (\<lambda>row. dot (coef m) row + intercept m) X"

definition future_years :: "int list" where
  "future_years = [2024, 2025, 2026, 2027, 2028]"

text \<open>
  \<open>create_future_projections\<close> returns the projected volumes and the projected
  values. Its charts are left out.
\<close>

definition create_future_projections ::
  "'a totals_scheme list \<Rightarrow> exn + real list \<times> real list" where
  "create_future_projections analysis_data =
     (let X = map (\<lambda>r. of_int (ano r)) analysis_data;
          y_volume = map volume_litros analysis_data;
          y_value = map valor_usd analysis_data;
          X_poly = map poly_features X
      in case fit X_poly y_volume of
           Inl e \<Rightarrow> Inl e
         | Inr model_volume \<Rightarrow>
             (case fit X_poly y_value of
                Inl e \<Rightarrow> Inl e
              | Inr model_value \<Rightarrow>
                  (let future_years_poly = map (\<lambda>year. poly_features (of_int year)) future_years
                   in Inr (predict model_volume future_years_poly,
                           predict model_value future_years_poly))))"

text \<open>
  The sum of the squared residuals of the quadratic \<open>a + b x + c x\<^sup>2\<close> on the pairs
  of a series.
\<close>

definition sse :: "real list \<Rightarrow> real list \<Rightarrow> real \<Rightarrow> real \<Rightarrow> real \<Rightarrow> real" where
  "sse xs ys a b c = sum_list (map (\<lambda>(x, y). (y - (a + b * x + c * x\<^sup>2))\<^sup>2) (zip xs ys))"

section \<open>Properties of data\_processor.py\<close>

text \<open>
  Claim C7. Whatever the file system does at the path, a loader of the data processor
  does not raise: it returns either the whole frame that was read, stored in its field
  and reported with its size, or, when the read raised, \<open>None\<close> with one diagnostic
  message and the state untouched.
\<close>

theorem loader_returns_all_or_none:
  "(case read_csv fs (reviews_path self) of
      Inr df \<Rightarrow> load_wine_reviews fs self
                 = Inr (self\<lparr>wine_reviews := Some df\<rparr>, [Loaded (length df)], Some df)
    | Inl e \<Rightarrow> load_wine_reviews fs self = Inr (self, [LoadFailed e], None))
   \<and> (case read_excel fs (embrapa_path self) of
      Inr df \<Rightarrow> load_embrapa_data fs self
                 = Inr (self\<lparr>embrapa_data := Some df\<rparr>, [Loaded (length df)], Some df)
    | Inl e \<Rightarrow> load_embrapa_data fs self = Inr (self, [LoadFailed e], None))"
  by (simp add: load_wine_reviews_def load_embrapa_data_def try_except_def split: sum.splits)

text \<open>
  Claim C8. On the two rows (Brazil, 88 points, price 20) and (Brazil, 92 points, price
  45), whatever their other columns hold, the Brazil analysis returns 2 reviews, mean
  points 90 and mean price 32.5; it prints nothing and leaves the state as it was.
\<close>

theorem brazil_scenario:
  "analyze_wine_reviews fs
     (self\<lparr>wine_reviews := Some
        [\<lparr>country = Some ''Brazil'', points = Some 88, price = Some 20,
          variety = v1, title = t1\<rparr>,
         \<lparr>country = Some ''Brazil'', points = Some 92, price = Some 45,
          variety = v2, title = t2\<rparr>]\<rparr>)
   = Inr (self\<lparr>wine_reviews := Some
        [\<lparr>country = Some ''Brazil'', points = Some 88, price = Some 20,
          variety = v1, title = t1\<rparr>,
         \<lparr>country = Some ''Brazil'', points = Some 92, price = Some 45,
          variety = v2, title = t2\<rparr>]\<rparr>, [],
        Some \<lparr>total_reviews = 2, avg_points = Some 90.0, avg_price = Some 32.5,
              price_range = (Some 20, Some 45),
              top_varieties = take 10 (value_counts [v1, v2])\<rparr>)"
  by (simp add: analyze_wine_reviews_def analyse_frame_def brazilian_def mean_def Let_def
      series_min_def series_max_def)

section \<open>Properties of the cleaning\<close>

lemma price_cut_ok:
  "pd_cut col price_bins price_labels = Inr (map (cut_cell price_bins price_labels) col)"
  by (simp add: pd_cut_def price_bins_def price_labels_def)

lemma rating_cut_ok:
  "pd_cut col rating_bins rating_labels = Inr (map (cut_cell rating_bins rating_labels) col)"
  by (simp add: pd_cut_def rating_bins_def rating_labels_def)

lemma zip_maps:
  "map (\<lambda>(r, pc, rc). f r pc rc) (zip df (zip (map g df) (map h df)))
     = map (\<lambda>r. f r (g r) (h r)) df"
  by (induction df) auto

lemma categorise_eq:
  "categorise df =
     Inr (map (\<lambda>r. with_categories r (cut_cell price_bins price_labels (price r))
                  (cut_cell rating_bins rating_labels (points r))) df)"
  using zip_maps[of with_categories df "\<lambda>x. cut_cell price_bins price_labels (price x)"
      "\<lambda>x. cut_cell rating_bins rating_labels (points x)"]
  by (simp add: categorise_def price_cut_ok rating_cut_ok comp_def)

text \<open>The cleaning never raises, and its rows are the kept rows with their categories.\<close>

lemma clean_data_rows:
  "clean_data df = Inr (d, msgs) \<longleftrightarrow>
     d = map (\<lambda>r. with_categories r (cut_cell price_bins price_labels (price r))
                  (cut_cell rating_bins rating_labels (points r)))
           (remove_outliers (dropna df))
     \<and> msgs = [Cleaned (length d)]"
  by (auto simp: clean_data_def categorise_eq)

lemma cleaned_row:
  assumes "clean_data df = Inr (d, msgs)" and "r \<in> set d"
  shows "price_category r = cut_cell price_bins price_labels (price r)"
    and "rating_category r = cut_cell rating_bins rating_labels (points r)"
  using assms by (auto simp: clean_data_rows with_categories_def)

lemma below_five: "i < 5 \<Longrightarrow> i = 0 \<or> i = 1 \<or> i = 2 \<or> i = 3 \<or> i = (4::nat)"
  by arith

lemma price_bucket_unique:
  assumes "0 < v"
  shows "\<exists>!i. i < 5 \<and> in_bin price_bins i v
              \<and> bucket price_bins price_labels v = Some (price_labels ! i)"
proof -
  let ?P = "\<lambda>i. i < 5 \<and> in_bin price_bins i v
              \<and> bucket price_bins price_labels v = Some (price_labels ! i)"
  consider "v \<le> 15" | "15 < v" "v \<le> 30" | "30 < v" "v \<le> 50" | "50 < v" "v \<le> 100"
    | "100 < v"
    by linarith
  then show ?thesis
  proof cases
    case 1
    have "?P 0" using 1 assms by (simp add: in_bin_def price_bins_def price_labels_def)
    moreover have "i = 0" if "?P i" for i
      using that 1 below_five[of i] by (auto simp: in_bin_def price_bins_def)
    ultimately show ?thesis by blast
  next
    case 2
    have "?P 1" using 2 assms by (simp add: in_bin_def price_bins_def price_labels_def)
    moreover have "i = 1" if "?P i" for i
      using that 2 below_five[of i] by (auto simp: in_bin_def price_bins_def)
    ultimately show ?thesis by blast
  next
    case 3
    have "?P 2" using 3 assms by (simp add: in_bin_def price_bins_def price_labels_def)
    moreover have "i = 2" if "?P i" for i
      using that 3 below_five[of i] by (auto simp: in_bin_def price_bins_def)
    ultimately show ?thesis by blast
  next
    case 4
    have "?P 3" using 4 assms by (simp add: in_bin_def price_bins_def price_labels_def)
    moreover have "i = 3" if "?P i" for i
      using that 4 below_five[of i] by (auto simp: in_bin_def price_bins_def)
    ultimately show ?thesis by blast
  next
    case 5
    have "?P 4" using 5 assms by (simp add: in_bin_def price_bins_def price_labels_def)
    moreover have "i = 4" if "?P i" for i
      using that 5 below_five[of i] by (auto simp: in_bin_def price_bins_def)
    ultimately show ?thesis by blast
  qed
qed

text \<open>
  Claim C1, as the code has it. The intervals of the price categories are closed on the
  right: in a cleaned frame, a row with a price above 0 lies in exactly one interval
  \<open>(lo, hi]\<close> of the edges 0, 15, 30, 50, 100, infinity and carries that interval's
  label; a price of 0 or less carries no label; a price equal to an inner edge carries
  the label of the interval it closes. For the edges 0, 15, 30 with the labels low and
  mid, 15 and 14.999 both map to low, and every value above 15 up to 30 maps to mid.
\<close>

theorem price_buckets_upper_inclusive:
  assumes "clean_data df = Inr (d, msgs)" and "r \<in> set d" and "price r = Some v"
  shows "(0 < v \<longrightarrow> (\<exists>!i. i < 5 \<and> in_bin price_bins i v
                          \<and> price_category r = Some (price_labels ! i)))
       \<and> (v \<le> 0 \<longrightarrow> price_category r = None)
       \<and> (v = 15 \<longrightarrow> price_category r = Some Economico)
       \<and> (v = 30 \<longrightarrow> price_category r = Some Medio)
       \<and> (v = 50 \<longrightarrow> price_category r = Some Premium)
       \<and> (v = 100 \<longrightarrow> price_category r = Some Super_Premium)
       \<and> pd_cut [Some 15, Some 14.999] [Fin 0, Fin 15, Fin 30] [''low'', ''mid'']
           = Inr [Some ''low'', Some ''low'']
       \<and> (\<forall>x. 15 < x \<and> x \<le> 30 \<longrightarrow>
             pd_cut [Some x] [Fin 0, Fin 15, Fin 30] [''low'', ''mid''] = Inr [Some ''mid''])"
proof -
  have cat: "price_category r = bucket price_bins price_labels v"
    using cleaned_row(1)[OF assms(1,2)] assms(3) by (simp add: cut_cell_def)
  have "0 < v \<longrightarrow> (\<exists>!i. i < 5 \<and> in_bin price_bins i v
                          \<and> price_category r = Some (price_labels ! i))"
    using price_bucket_unique[of v] cat by simp
  moreover have "v \<le> 0 \<longrightarrow> price_category r = None"
    using cat by (simp add: price_bins_def price_labels_def)
  moreover have "v = 15 \<longrightarrow> price_category r = Some Economico"
    using cat by (simp add: price_bins_def price_labels_def)
  moreover have "v = 30 \<longrightarrow> price_category r = Some Medio"
    using cat by (simp add: price_bins_def price_labels_def)
  moreover have "v = 50 \<longrightarrow> price_category r = Some Premium"
    using cat by (simp add: price_bins_def price_labels_def)
  moreover have "v = 100 \<longrightarrow> price_category r = Some Super_Premium"
    using cat by (simp add: price_bins_def price_labels_def)
  moreover have "pd_cut [Some 15, Some 14.999] [Fin 0, Fin 15, Fin 30] [''low'', ''mid'']
           = Inr [Some ''low'', Some ''low'']"
    by (simp add: pd_cut_def cut_cell_def)
  moreover have "\<forall>x. 15 < x \<and> x \<le> 30 \<longrightarrow>
             pd_cut [Some x] [Fin 0, Fin 15, Fin 30] [''low'', ''mid''] = Inr [Some ''mid'']"
    by (simp add: pd_cut_def cut_cell_def)
  ultimately show ?thesis by blast
qed

lemmas eval_clean =
  clean_data_def categorise_def pd_cut_def dropna_def remove_outliers_def quantile_def Let_def
  nan_minus_def nan_plus_def nan_scale_def nan_ge_def nan_le_def with_categories_def
  cut_cell_def price_bins_def price_labels_def rating_bins_def rating_labels_def

lemma clean_one_at_15:
  "clean_data [\<lparr>country = None, points = Some 85, price = Some 15, variety = None,
                title = None\<rparr>]
   = Inr ([\<lparr>country = None, points = Some 85, price = Some 15, variety = None,
            title = None, price_category = Some Economico, rating_category = Some Bom\<rparr>],
          [Cleaned 1])"
  by (simp add: eval_clean)

theorem price_buckets_witness:
  "(\<exists>!i. i < 5 \<and> in_bin price_bins i 15 \<and> Some Economico = Some (price_labels ! i))
   \<and> pd_cut [Some 15, Some 14.999] [Fin 0, Fin 15, Fin 30] [''low'', ''mid'']
           = Inr [Some ''low'', Some ''low'']"
  using price_buckets_upper_inclusive[OF clean_one_at_15, of
      "\<lparr>country = None, points = Some 85, price = Some 15, variety = None,
            title = None, price_category = Some Economico, rating_category = Some Bom\<rparr>" 15]
  by simp

text \<open>
  Against C1 as stated: the cleaning gives a wine priced exactly 15 the first label and
  not the second, and a wine priced 0, a value of the first stated interval, none at all;
  with the edges 0, 15, 30 and the labels low and mid, 15 maps to low and not to mid.
\<close>

theorem lower_inclusive_counterexample:
  "clean_data [\<lparr>country = None, points = Some 85, price = Some 15, variety = None,
                title = None\<rparr>]
   = Inr ([\<lparr>country = None, points = Some 85, price = Some 15, variety = None,
            title = None, price_category = Some Economico, rating_category = Some Bom\<rparr>],
          [Cleaned 1])
   \<and> clean_data [\<lparr>country = None, points = Some 85, price = Some 0, variety = None,
                title = None\<rparr>]
   = Inr ([\<lparr>country = None, points = Some 85, price = Some 0, variety = None,
            title = None, price_category = None, rating_category = Some Bom\<rparr>],
          [Cleaned 1])
   \<and> pd_cut [Some 15] [Fin 0, Fin 15, Fin 30] [''low'', ''mid''] = Inr [Some ''low'']
   \<and> pd_cut [Some 15] [Fin 0, Fin 15, Fin 30] [''low'', ''mid''] \<noteq> Inr [Some ''mid'']"
  by (simp add: eval_clean)

section \<open>Properties of the trend analysis\<close>




lemma filter_enumerate_length:
  "length (filter (\<lambda>(i, r). P r) (enumerate n xs)) = length (filter P xs)"
  by (induction xs arbitrary: n) auto

lemma premium_value_length:
  "length (premium_value nz d) = length (filter (\<lambda>r. nan_ge (points r) (Some 90)) d)"
  by (simp add: premium_value_def filter_enumerate_length)

lemma premium_value_none:
  assumes "\<forall>r \<in> set d. \<not> nan_ge (points r) (Some 90)"
  shows "premium_value nz d = []"
proof -
  have "filter (\<lambda>r. nan_ge (points r) (Some 90)) d = []"
    using assms by (simp add: filter_empty_conv)
  then have "length (premium_value nz d) = 0"
    by (simp add: premium_value_length)
  then show ?thesis by simp
qed








lemma country_loop_iff:
  "(c, x, n) \<in> set (country_loop d cs) \<longleftrightarrow>
     c \<in> set cs \<and> 50 < length (filter (\<lambda>r. country r = Some c) d)
     \<and> x = corr (map price (filter (\<lambda>r. country r = Some c) d))
                 (map points (filter (\<lambda>r. country r = Some c) d))
     \<and> n = length (filter (\<lambda>r. country r = Some c) d)"
  by (induction cs) (auto simp: Let_def)

lemma present_set: "set (present col) = {v. Some v \<in> set col}"
  by (induction col rule: present.induct) auto

lemma first_seen_set: "set (first_seen xs) = set xs"
  by (simp add: first_seen_def)

lemma first_seen_distinct: "distinct (first_seen xs)"
  by (simp add: first_seen_def)

lemma value_counts_keys: "fst ` set (value_counts col) = set (present col)"
  by (simp add: value_counts_def Let_def image_image first_seen_set)

lemma value_counts_length: "length (value_counts col) = card (set (present col))"
  using distinct_card[OF first_seen_distinct[of "present col"]]
  by (simp add: value_counts_def Let_def first_seen_set)

lemma top_countries_length: "length (top_countries d) \<le> 10"
  by (simp add: top_countries_def)

lemma top_countries_subset: "set (top_countries d) \<subseteq> {c. Some c \<in> country ` set d}"
proof -
  have "set (take 10 (value_counts (map country d))) \<subseteq> set (value_counts (map country d))"
    by (rule set_take_subset)
  then have "set (top_countries d) \<subseteq> fst ` set (value_counts (map country d))"
    by (auto simp: top_countries_def)
  then show ?thesis by (simp add: value_counts_keys present_set)
qed

lemma top_countries_all:
  assumes "card {c. Some c \<in> country ` set d} \<le> 10"
  shows "set (top_countries d) = {c. Some c \<in> country ` set d}"
proof -
  let ?vc = "value_counts (map country d)"
  have "length ?vc \<le> 10"
    using assms by (simp add: value_counts_length present_set)
  then have "take 10 ?vc = ?vc" by simp
  then have "set (top_countries d) = fst ` set ?vc" by (simp add: top_countries_def)
  then show ?thesis by (simp add: value_counts_keys present_set)
qed

text \<open>
  Claim C3, as the code has it. When the trend analysis returns, a correlation is
  recorded for exactly the countries, among the ten most frequent ones, that have more
  than 50 rows, with the correlation of price and points over the country's rows and
  their number; a country of 50 rows or fewer is skipped. The ten most frequent countries
  are all the countries of the frame when it has at most ten.
\<close>

theorem country_correlation_threshold:
  assumes "identify_purchase_trends nz d = Inr t"
  shows "((c, x, n) \<in> set (country_correlations t) \<longleftrightarrow>
            c \<in> set (top_countries d) \<and> 50 < length (filter (\<lambda>r. country r = Some c) d)
            \<and> x = corr (map price (filter (\<lambda>r. country r = Some c) d))
                        (map points (filter (\<lambda>r. country r = Some c) d))
            \<and> n = length (filter (\<lambda>r. country r = Some c) d))
       \<and> length (top_countries d) \<le> 10
       \<and> set (top_countries d) \<subseteq> {c. Some c \<in> country ` set d}
       \<and> (card {c. Some c \<in> country ` set d} \<le> 10 \<longrightarrow>
            set (top_countries d) = {c. Some c \<in> country ` set d})"
proof -
  have "country_correlations t = sort_key by_corr (country_loop d (top_countries d))"
    using assms by (auto simp: identify_purchase_trends_def Let_def split: if_splits)
  then have "set (country_correlations t) = set (country_loop d (top_countries d))"
    by simp
  then show ?thesis
    using country_loop_iff top_countries_length top_countries_subset top_countries_all
    by simp
qed


lemma top_of_one_country:
  assumes "d \<noteq> []" and "\<forall>r \<in> set d. country r = Some c"
  shows "top_countries d = [c]"
proof -
  have s: "{k. Some k \<in> country ` set d} = {c}"
    using assms by (cases d) auto
  then have "set (top_countries d) = {c}"
    using top_countries_all[of d] by simp
  moreover have "length (value_counts (map country d)) = 1"
    using s by (simp add: value_counts_length present_set)
  then have "length (top_countries d) = 1"
    by (simp add: top_countries_def)
  ultimately show ?thesis
    by (cases "top_countries d") auto
qed

lemma present_replicate: "present (replicate n (Some v)) = replicate n v"
  by (induction n) auto

lemma quantile_constant:
  assumes "0 \<le> q" and "q \<le> 1"
  shows "quantile (replicate (Suc n) (Some p)) q = Some p"
proof -
  let ?s = "sort (present (replicate (Suc n) (Some p)))"
  have s: "?s = replicate (Suc n) p"
    by (simp only: present_replicate) (rule sorted_sort_id, simp add: sorted_replicate)
  let ?h = "real n * q"
  have "?h \<le> real n" using assms by (simp add: mult_left_le)
  then have "\<lfloor>?h\<rfloor> \<le> int n" by linarith
  then have i: "nat \<lfloor>?h\<rfloor> < Suc n" by linarith
  have j: "min (nat \<lfloor>?h\<rfloor> + 1) n < Suc n" by simp
  have "quantile (replicate (Suc n) (Some p)) q
      = Some (?s ! nat \<lfloor>?h\<rfloor> + (?h - real (nat \<lfloor>?h\<rfloor>))
               * (?s ! min (nat \<lfloor>?h\<rfloor> + 1) n - ?s ! nat \<lfloor>?h\<rfloor>))"
    by (simp add: quantile_def Let_def s del: replicate.simps)
  also have "\<dots> = Some p"
    unfolding s using i j by (simp del: replicate.simps)
  finally show ?thesis .
qed

lemma remove_outliers_constant:
  assumes "price r = Some p"
  shows "remove_outliers (replicate (Suc n) r) = replicate (Suc n) r"
proof -
  have m: "map price (replicate (Suc n) r) = replicate (Suc n) (Some p)"
    using assms by (simp del: replicate.simps)
  show ?thesis
    unfolding remove_outliers_def m
    by (simp add: quantile_constant Let_def nan_minus_def nan_plus_def nan_scale_def nan_ge_def
        nan_le_def assms del: replicate.simps)
qed

lemma clean_constant:
  assumes "price r = Some p" and "points r = Some q"
  shows "clean_data (replicate (Suc n) r)
       = Inr (replicate (Suc n) (with_categories r (bucket price_bins price_labels p)
                                   (bucket rating_bins rating_labels q)), [Cleaned (Suc n)])"
proof -
  have "dropna (replicate (Suc n) r) = replicate (Suc n) r"
    using assms by (simp add: dropna_def del: replicate.simps)
  then show ?thesis
    using assms remove_outliers_constant[OF assms(1), of n]
    by (simp add: clean_data_def categorise_eq cut_cell_def del: replicate.simps)
qed

lemma clean_fifty_fast:
  "clean_data (replicate 50 \<lparr>country = Some ''Brazil'', points = Some 88, price = Some 20,
      variety = None, title = Some ''t''\<rparr>)
   = Inr (replicate 50 \<lparr>country = Some ''Brazil'', points = Some 88, price = Some 20,
      variety = None, title = Some ''t'', price_category = Some Medio,
      rating_category = Some Muito_Bom\<rparr>, [Cleaned 50])"
proof -
  have "(50::nat) = Suc 49" by simp
  then show ?thesis
    using clean_constant[of "\<lparr>country = Some ''Brazil'', points = Some 88, price = Some 20,
      variety = None, title = Some ''t''\<rparr>" 20 88 49]
    by (simp add: with_categories_def price_bins_def price_labels_def rating_bins_def
        rating_labels_def del: replicate.simps)
qed

lemma trends_of_one_country:
  assumes "points w = Some 88" and "country w = Some c" and "title w \<noteq> None"
  shows "\<exists>t. identify_purchase_trends nz (replicate (Suc n) w) = Inr t"
proof -
  have "premium_value nz (replicate (Suc n) w) = []"
    using assms(1) by (intro premium_value_none) (simp add: nan_ge_def)
  then show ?thesis
    by (simp add: identify_purchase_trends_def nlargest_def Let_def del: replicate.simps)
qed

text \<open>
  Against C3 as stated: a frame of exactly 50 Brazilian wines passes the cleaning whole,
  the country has 50 rows, and no correlation is recorded for it.
\<close>

theorem threshold_counterexample:
  "clean_data (replicate 50 \<lparr>country = Some ''Brazil'', points = Some 88, price = Some 20,
      variety = None, title = Some ''t''\<rparr>)
   = Inr (replicate 50 \<lparr>country = Some ''Brazil'', points = Some 88, price = Some 20,
      variety = None, title = Some ''t'', price_category = Some Medio,
      rating_category = Some Muito_Bom\<rparr>, [Cleaned 50])
   \<and> length (filter (\<lambda>r. country r = Some ''Brazil'')
        (replicate 50 \<lparr>country = Some ''Brazil'', points = Some 88, price = Some 20,
           variety = None, title = Some ''t'', price_category = Some Medio,
           rating_category = Some Muito_Bom\<rparr>)) = 50
   \<and> map_sum id country_correlations
       (identify_purchase_trends (\<lambda>i. False)
          (replicate 50 \<lparr>country = Some ''Brazil'', points = Some 88, price = Some 20,
             variety = None, title = Some ''t'', price_category = Some Medio,
             rating_category = Some Muito_Bom\<rparr>)) = Inr []"
proof -
  let ?w = "\<lparr>country = Some ''Brazil'', points = Some 88, price = Some 20,
      variety = None, title = Some ''t'', price_category = Some Medio,
      rating_category = Some Muito_Bom\<rparr>"
  have fifty: "(50::nat) = Suc 49" by simp
  have top: "top_countries (replicate 50 ?w) = [''Brazil'']"
    unfolding fifty by (rule top_of_one_country) simp_all
  have prem: "premium_value (\<lambda>i. False) (replicate 50 ?w) = []"
    by (intro premium_value_none) (simp add: nan_ge_def)
  have "map_sum id country_correlations (identify_purchase_trends (\<lambda>i. False) (replicate 50 ?w)) = Inr []"
    by (simp add: identify_purchase_trends_def Let_def top prem nlargest_def)
  then show ?thesis
    using clean_fifty_fast by simp
qed

theorem country_correlation_witness:
  "\<exists>t. identify_purchase_trends (\<lambda>i. False)
          (replicate 51 \<lparr>country = Some ''Brazil'', points = Some 88, price = Some 20,
             variety = None, title = Some ''t'', price_category = Some Medio,
             rating_category = Some Muito_Bom\<rparr>) = Inr t
     \<and> (''Brazil'',
         corr (replicate 51 (Some 20)) (replicate 51 (Some 88)), 51)
         \<in> set (country_correlations t)"
proof -
  let ?w = "\<lparr>country = Some ''Brazil'', points = Some 88, price = Some 20,
      variety = None, title = Some ''t'', price_category = Some Medio,
      rating_category = Some Muito_Bom\<rparr>"
  have n: "(51::nat) = Suc 50" by simp
  obtain t where t: "identify_purchase_trends (\<lambda>i. False) (replicate 51 ?w) = Inr t"
    unfolding n using trends_of_one_country[of ?w "''Brazil''" "\<lambda>i. False" 50] by auto
  have top: "top_countries (replicate 51 ?w) = [''Brazil'']"
    unfolding n by (rule top_of_one_country) simp_all
  show ?thesis
    using country_correlation_threshold[OF t, of "''Brazil''"
        "corr (replicate 51 (Some 20)) (replicate 51 (Some 88))" 51] t top
    by simp
qed

section \<open>Properties of the group statistics\<close>

lemma remove_outliers_subset: "set (remove_outliers df) \<subseteq> set df"
  by (auto simp: remove_outliers_def Let_def)

lemma cleaned_points_present:
  assumes "clean_data df = Inr (d, msgs)" and "r \<in> set d"
  shows "points r \<noteq> None" and "price r \<noteq> None"
proof -
  obtain r0 where r0: "r0 \<in> set (remove_outliers (dropna df))"
      and r: "r = with_categories r0 (cut_cell price_bins price_labels (price r0))
                    (cut_cell rating_bins rating_labels (points r0))"
    using assms by (auto simp: clean_data_rows)
  have "r0 \<in> set (dropna df)"
    using r0 remove_outliers_subset by blast
  then have "points r0 \<noteq> None \<and> price r0 \<noteq> None"
    by (simp add: dropna_def)
  then show "points r \<noteq> None" and "price r \<noteq> None"
    using r by (simp_all add: with_categories_def)
qed

lemma count_all_present:
  "\<forall>r \<in> set g. f r \<noteq> None \<Longrightarrow> count (map f g) = length g"
  by (induction g) (auto simp: count_def)

lemma group_sizes_sum:
  "sum_list (map (\<lambda>l. length (group_of d l)) price_labels)
     = length (filter (\<lambda>r. price_category r \<noteq> None) d)"
proof (induction d)
  case Nil
  then show ?case by (simp add: group_of_def price_labels_def)
next
  case (Cons r d)
  show ?case
  proof (cases "price_category r")
    case None
    then show ?thesis using Cons by (simp add: group_of_def price_labels_def)
  next
    case (Some l)
    then show ?thesis using Cons by (cases l) (simp_all add: group_of_def price_labels_def)
  qed
qed

text \<open>
  Claim C5. On a cleaned frame in which every row has a price category, the counts of the
  groups of the group-by on the price category add up to the number of rows of the frame.
\<close>

theorem group_counts_sum:
  assumes "clean_data df = Inr (d, msgs)" and "\<forall>r \<in> set d. price_category r \<noteq> None"
  shows "sum_list (map (\<lambda>(l, g). points_count g) (snd (analyze_price_quality_relationship d)))
           = length d"
proof -
  have "points_count (agg (group_of d l)) = length (group_of d l)" for l
  proof -
    have "\<forall>r \<in> set (group_of d l). points r \<noteq> None"
      using cleaned_points_present(1)[OF assms(1)] by (simp add: group_of_def)
    then show ?thesis by (simp add: agg_def count_all_present)
  qed
  then have "sum_list (map (\<lambda>(l, g). points_count g) (snd (analyze_price_quality_relationship d)))
      = sum_list (map (\<lambda>l. length (group_of d l)) price_labels)"
    by (simp add: analyze_price_quality_relationship_def price_analysis_def comp_def)
  also have "\<dots> = length (filter (\<lambda>r. price_category r \<noteq> None) d)"
    by (rule group_sizes_sum)
  also have "\<dots> = length d"
    using assms(2) by simp
  finally show ?thesis .
qed

lemma clean_two:
  "clean_data [\<lparr>country = None, points = Some 85, price = Some 15, variety = None,
                title = None\<rparr>,
               \<lparr>country = None, points = Some 91, price = Some 20, variety = None,
                title = None\<rparr>]
   = Inr ([\<lparr>country = None, points = Some 85, price = Some 15, variety = None,
            title = None, price_category = Some Economico, rating_category = Some Bom\<rparr>,
           \<lparr>country = None, points = Some 91, price = Some 20, variety = None,
            title = None, price_category = Some Medio, rating_category = Some Excelente\<rparr>],
          [Cleaned 2])"
  by (simp add: eval_clean)

theorem group_counts_witness:
  "sum_list (map (\<lambda>(l, g). points_count g)
      (snd (analyze_price_quality_relationship
         [\<lparr>country = None, points = Some 85, price = Some 15, variety = None,
            title = None, price_category = Some Economico, rating_category = Some Bom\<rparr>,
           \<lparr>country = None, points = Some 91, price = Some 20, variety = None,
            title = None, price_category = Some Medio, rating_category = Some Excelente\<rparr>])))
   = 2"
  using group_counts_sum[OF clean_two] by simp

section \<open>Properties of the mock data\<close>

lemma export_entry_eq:
  "export_entry y c g =
     (\<lparr>ano = y,
       volume_litros = max 0 ((1000000 + 200000 * draws g (pos g))
           * (1 + of_int (y - 2009) * 0.05 + (0 + 0.1 * draws g (pos g + 1)))),
       valor_usd = max 0 ((1000000 + 200000 * draws g (pos g))
           * (1 + of_int (y - 2009) * 0.05 + (0 + 0.1 * draws g (pos g + 1))))
         * ((2.5 + (8.0 - 2.5) * draws g (pos g + 2)) * (1 + of_int (y - 2009) * 0.03)),
       pais_destino = c\<rparr>,
      g\<lparr>pos := pos g + 3\<rparr>)"
  unfolding export_entry_def normal_def uniform_def next_draw_def Let_def prod.case
  by (simp add: numeral_3_eq_3 add.assoc)

lemma export_entry_row:
  assumes "export_entry y c g = (r, g')"
  shows "ano r = y" and "pais_destino r = c" and "0 \<le> volume_litros r"
    and "valor_usd r = volume_litros r
           * ((2.5 + (8.0 - 2.5) * draws g (pos g + 2)) * (1 + of_int (y - 2009) * 0.03))"
    and "draws g' = draws g" and "pos g' = pos g + 3"
proof -
  have r: "r = fst (export_entry y c g)" and g': "g' = snd (export_entry y c g)"
    using assms by simp_all
  show "ano r = y" unfolding r export_entry_eq by simp
  show "pais_destino r = c" unfolding r export_entry_eq by simp
  show "0 \<le> volume_litros r" unfolding r export_entry_eq by simp
  show "valor_usd r = volume_litros r
           * ((2.5 + (8.0 - 2.5) * draws g (pos g + 2)) * (1 + of_int (y - 2009) * 0.03))"
    unfolding r export_entry_eq fst_conv by (simp only: totals.simps export_row.simps yearly.simps)
  show "draws g' = draws g" unfolding g' export_entry_eq by simp
  show "pos g' = pos g + 3" unfolding g' export_entry_eq by simp
qed


lemma for_each_export:
  assumes "for_each (export_entry y) cs g = (rows, g')"
  shows "map (\<lambda>r. (ano r, pais_destino r)) rows = map (Pair y) cs
       \<and> draws g' = draws g \<and> pos g' = pos g + 3 * length cs
       \<and> (\<forall>j < length cs. 0 \<le> volume_litros (rows ! j)
            \<and> valor_usd (rows ! j) = volume_litros (rows ! j)
                * ((2.5 + (8.0 - 2.5) * draws g (pos g + 3 * j + 2))
                   * (1 + of_int (y - 2009) * 0.03)))"
  using assms
proof (induction cs arbitrary: g rows g')
  case Nil
  then show ?case by simp
next
  case (Cons c cs)
  obtain r g1 where e: "export_entry y c g = (r, g1)" by (cases "export_entry y c g")
  obtain rs g2 where f: "for_each (export_entry y) cs g1 = (rs, g2)"
    by (cases "for_each (export_entry y) cs g1")
  have rows: "rows = r # rs" and g': "g' = g2"
    using Cons.prems e f by simp_all
  note row = export_entry_row[OF e]
  have ih_keys: "map (\<lambda>r. (ano r, pais_destino r)) rs = map (Pair y) cs"
    and ih_draws: "draws g2 = draws g1" and ih_pos: "pos g2 = pos g1 + 3 * length cs"
    and ih_each: "\<And>j. j < length cs \<Longrightarrow> 0 \<le> volume_litros (rs ! j)
            \<and> valor_usd (rs ! j) = volume_litros (rs ! j)
                * ((2.5 + (8.0 - 2.5) * draws g1 (pos g1 + 3 * j + 2))
                   * (1 + of_int (y - 2009) * 0.03))"
    using Cons.IH[OF f] by blast+
  have keys: "map (\<lambda>r. (ano r, pais_destino r)) rows = map (Pair y) (c # cs)"
    unfolding rows using ih_keys row(1,2) by simp
  have src1: "draws g' = draws g"
    unfolding g' using ih_draws row(5) by simp
  have src2: "pos g' = pos g + 3 * length (c # cs)"
    unfolding g' using ih_pos row(6) by simp
  have each: "0 \<le> volume_litros (rows ! j)
            \<and> valor_usd (rows ! j) = volume_litros (rows ! j)
                * ((2.5 + (8.0 - 2.5) * draws g (pos g + 3 * j + 2))
                   * (1 + of_int (y - 2009) * 0.03))" if "j < length (c # cs)" for j
  proof (cases j)
    case 0
    have "rows ! j = r" unfolding rows 0 by simp
    moreover have "pos g + 3 * j + 2 = pos g + 2" unfolding 0 by simp
    ultimately show ?thesis using row(3,4) by (simp only:)
  next
    case (Suc k)
    have k: "k < length cs" using that Suc by simp
    have idx: "pos g1 + 3 * k + 2 = pos g + 3 * j + 2"
      unfolding Suc row(6) by simp
    have "rows ! j = rs ! k" unfolding rows Suc by simp
    then show ?thesis using ih_each[OF k] idx row(5) by (simp only:)
  qed
  show ?case using keys src1 src2 each by blast
qed


lemma length_countries: "length countries = 10"
  by (simp add: countries_def)

lemma length_years: "length years = 15"
  by (simp add: years_def)

lemma export_loop_rows:
  assumes "export_loop ys g = (rows, g')"
  shows "map (\<lambda>r. (ano r, pais_destino r)) rows = List.product ys countries
       \<and> draws g' = draws g \<and> pos g' = pos g + 30 * length ys
       \<and> (\<forall>k < 10 * length ys. 0 \<le> volume_litros (rows ! k)
            \<and> valor_usd (rows ! k) = volume_litros (rows ! k)
                * ((2.5 + (8.0 - 2.5) * draws g (pos g + 3 * k + 2))
                   * (1 + of_int (ano (rows ! k) - 2009) * 0.03)))"
  using assms
proof (induction ys arbitrary: g rows g')
  case Nil
  then show ?case by simp
next
  case (Cons y ys)
  obtain rows1 g1 where f: "for_each (export_entry y) countries g = (rows1, g1)"
    by (cases "for_each (export_entry y) countries g")
  obtain rest g2 where l: "export_loop ys g1 = (rest, g2)"
    by (cases "export_loop ys g1")
  have rows: "rows = rows1 @ rest" and g': "g' = g2"
    using Cons.prems f l by simp_all
  have f_keys: "map (\<lambda>r. (ano r, pais_destino r)) rows1 = map (Pair y) countries"
    and f_draws: "draws g1 = draws g" and f_pos: "pos g1 = pos g + 3 * length countries"
    and f_each: "\<And>j. j < length countries \<Longrightarrow> 0 \<le> volume_litros (rows1 ! j)
            \<and> valor_usd (rows1 ! j) = volume_litros (rows1 ! j)
                * ((2.5 + (8.0 - 2.5) * draws g (pos g + 3 * j + 2))
                   * (1 + of_int (y - 2009) * 0.03))"
    using for_each_export[OF f] by blast+
  have ih_keys: "map (\<lambda>r. (ano r, pais_destino r)) rest = List.product ys countries"
    and ih_draws: "draws g2 = draws g1" and ih_pos: "pos g2 = pos g1 + 30 * length ys"
    and ih_each: "\<And>k. k < 10 * length ys \<Longrightarrow> 0 \<le> volume_litros (rest ! k)
            \<and> valor_usd (rest ! k) = volume_litros (rest ! k)
                * ((2.5 + (8.0 - 2.5) * draws g1 (pos g1 + 3 * k + 2))
                   * (1 + of_int (ano (rest ! k) - 2009) * 0.03))"
    using Cons.IH[OF l] by blast+
  have len1: "length rows1 = 10"
    using arg_cong[OF f_keys, of length] by (simp add: length_countries)
  have year1: "ano (rows1 ! j) = y" if "j < 10" for j
  proof -
    have "(map (\<lambda>r. (ano r, pais_destino r)) rows1) ! j = (map (Pair y) countries) ! j"
      by (simp only: f_keys)
    then show ?thesis using that len1 by (simp add: length_countries)
  qed
  have keys: "map (\<lambda>r. (ano r, pais_destino r)) rows = List.product (y # ys) countries"
    unfolding rows using f_keys ih_keys by simp
  have src1: "draws g' = draws g"
    unfolding g' using ih_draws f_draws by simp
  have src2: "pos g' = pos g + 30 * length (y # ys)"
    unfolding g' using ih_pos f_pos by (simp add: length_countries)
  have each: "0 \<le> volume_litros (rows ! k)
            \<and> valor_usd (rows ! k) = volume_litros (rows ! k)
                * ((2.5 + (8.0 - 2.5) * draws g (pos g + 3 * k + 2))
                   * (1 + of_int (ano (rows ! k) - 2009) * 0.03))"
    if k: "k < 10 * length (y # ys)" for k
  proof (cases "k < 10")
    case True
    have at: "rows ! k = rows1 ! k"
      unfolding rows using True len1 by (simp add: nth_append)
    have "k < length countries" using True by (simp add: length_countries)
    from f_each[OF this] show ?thesis
      unfolding at year1[OF True] .
  next
    case False
    define m where "m = k - 10"
    have km: "k = 10 + m" using False by (simp add: m_def)
    have m: "m < 10 * length ys" using k km by simp
    have at: "rows ! k = rest ! m"
      unfolding rows km using len1 by (simp add: nth_append)
    have idx: "pos g1 + 3 * m + 2 = pos g + 3 * k + 2"
      unfolding f_pos km by (simp add: length_countries)
    from ih_each[OF m] show ?thesis
      unfolding at idx f_draws .
  qed
  show ?case using keys src1 src2 each by blast
qed

lemma distinct_pairs: "distinct (List.product years countries)"
  by (rule distinct_product) (simp_all add: years_def countries_def)

text \<open>
  Claim C10. Whatever the random source yields, the generated export frame has exactly
  one row for each pair of a year of 2009 to 2023 and a country of the list, 150 rows in
  the order of the nested loops; every row has a volume of at least zero, and its value is
  its volume times the sampled price per litre: the uniform draw of the row's iteration,
  the third of its three variates, scaled to 2.5 to 8.0 and multiplied by the year's
  price factor.
\<close>

theorem mock_export_rows:
  "\<exists>rows. export_data (fst (generate_mock_data g self)) = Some rows
     \<and> map (\<lambda>r. (ano r, pais_destino r)) rows = List.product years countries
     \<and> distinct (map (\<lambda>r. (ano r, pais_destino r)) rows)
     \<and> length rows = 150
     \<and> (\<forall>k < 150. 0 \<le> volume_litros (rows ! k)
            \<and> valor_usd (rows ! k) = volume_litros (rows ! k)
                * ((2.5 + (8.0 - 2.5) * draws g (pos g + 3 * k + 2))
                   * (1 + of_int (ano (rows ! k) - 2009) * 0.03)))"
proof -
  obtain rows g1 where l: "export_loop years g = (rows, g1)"
    by (cases "export_loop years g")
  have keys: "map (\<lambda>r. (ano r, pais_destino r)) rows = List.product years countries"
    and each: "\<And>k. k < 10 * length years \<Longrightarrow> 0 \<le> volume_litros (rows ! k)
            \<and> valor_usd (rows ! k) = volume_litros (rows ! k)
                * ((2.5 + (8.0 - 2.5) * draws g (pos g + 3 * k + 2))
                   * (1 + of_int (ano (rows ! k) - 2009) * 0.03))"
    using export_loop_rows[OF l] by blast+
  have data: "export_data (fst (generate_mock_data g self)) = Some rows"
    unfolding generate_mock_data_def Let_def l by (simp add: split_def)
  have dist: "distinct (map (\<lambda>r. (ano r, pais_destino r)) rows)"
    unfolding keys by (rule distinct_pairs)
  have len: "length rows = 150"
    using arg_cong[OF keys, of length] by (simp add: length_years length_countries)
  have all: "\<forall>k < 150. 0 \<le> volume_litros (rows ! k)
            \<and> valor_usd (rows ! k) = volume_litros (rows ! k)
                * ((2.5 + (8.0 - 2.5) * draws g (pos g + 3 * k + 2))
                   * (1 + of_int (ano (rows ! k) - 2009) * 0.03))"
  proof (intro allI impI)
    fix k :: nat assume "k < 150"
    then have "k < 10 * length years" by (simp add: length_years)
    then show "0 \<le> volume_litros (rows ! k)
            \<and> valor_usd (rows ! k) = volume_litros (rows ! k)
                * ((2.5 + (8.0 - 2.5) * draws g (pos g + 3 * k + 2))
                   * (1 + of_int (ano (rows ! k) - 2009) * 0.03))"
      by (rule each)
  qed
  show ?thesis using data keys dist len all by blast
qed

theorem mock_export_witness:
  "\<exists>rows. export_data (fst (generate_mock_data \<lparr>draws = \<lambda>n. 0, pos = 0\<rparr> init_exporter))
             = Some rows
     \<and> length rows = 150
     \<and> 0 \<le> volume_litros (rows ! 0)
     \<and> valor_usd (rows ! 0)
         = volume_litros (rows ! 0) * (2.5 * (1 + of_int (ano (rows ! 0) - 2009) * 0.03))"
proof -
  obtain rows where
    "export_data (fst (generate_mock_data \<lparr>draws = \<lambda>n. 0, pos = 0\<rparr> init_exporter))
       = Some rows"
    and "length rows = 150"
    and "\<forall>k < 150. 0 \<le> volume_litros (rows ! k)
            \<and> valor_usd (rows ! k) = volume_litros (rows ! k)
                * ((2.5 + (8.0 - 2.5) * draws \<lparr>draws = \<lambda>n. 0, pos = 0\<rparr>
                                         (pos \<lparr>draws = \<lambda>n. 0, pos = 0\<rparr> + 3 * k + 2))
                   * (1 + of_int (ano (rows ! k) - 2009) * 0.03))"
    using mock_export_rows[of "\<lparr>draws = \<lambda>n. 0, pos = 0\<rparr>" init_exporter] by blast
  then show ?thesis by auto
qed

section \<open>Properties of the outlier removal\<close>









section \<open>Properties of the correlation\<close>









lemma paired_columns:
  "zip (map fst (paired a b)) (map snd (paired a b)) = paired a b"
  by (simp add: zip_map_fst_snd)


lemma price_quality_correlation:
  "fst (analyze_price_quality_relationship d) = corr (map price d) (map points d)"
  by (simp add: analyze_price_quality_relationship_def)





section \<open>Properties of the projections\<close>

lemma square_sum_expand:
  fixes e d :: "'a \<Rightarrow> real"
  shows "sum_list (map (\<lambda>r. (e r + d r)\<^sup>2) rs)
       = sum_list (map (\<lambda>r. (e r)\<^sup>2) rs) + 2 * sum_list (map (\<lambda>r. e r * d r) rs)
         + sum_list (map (\<lambda>r. (d r)\<^sup>2) rs)"
  by (induction rs) (simp_all add: power2_eq_square algebra_simps)

lemma affine_sum:
  fixes e u w :: "'a \<Rightarrow> real"
  shows "sum_list (map (\<lambda>r. e r * (k0 + k1 * u r + k2 * w r)) rs)
       = k0 * sum_list (map e rs) + k1 * sum_list (map (\<lambda>r. e r * u r) rs)
         + k2 * sum_list (map (\<lambda>r. e r * w r) rs)"
  by (induction rs) (simp_all add: algebra_simps)

lemma residual_sums:
  fixes u w v :: "'a \<Rightarrow> real"
  shows "sum_list (map (\<lambda>r. v r - c1 * u r - c2 * w r) rs)
       = sum_list (map v rs) - c1 * sum_list (map u rs) - c2 * sum_list (map w rs)"
    and "sum_list (map (\<lambda>r. (v r - c1 * u r - c2 * w r) * u r) rs)
       = sum_list (map (\<lambda>r. u r * v r) rs) - c1 * sum_list (map (\<lambda>r. u r * u r) rs)
         - c2 * sum_list (map (\<lambda>r. u r * w r) rs)"
    and "sum_list (map (\<lambda>r. (v r - c1 * u r - c2 * w r) * w r) rs)
       = sum_list (map (\<lambda>r. w r * v r) rs) - c1 * sum_list (map (\<lambda>r. u r * w r) rs)
         - c2 * sum_list (map (\<lambda>r. w r * w r) rs)"
  by (induction rs) (simp_all add: algebra_simps)

lemma centred_least_squares:
  fixes u w v :: "'a \<Rightarrow> real"
  assumes su: "sum_list (map u rs) = 0" and sw: "sum_list (map w rs) = 0"
    and sv: "sum_list (map v rs) = 0"
    and n1: "c1 * sum_list (map (\<lambda>r. u r * u r) rs) + c2 * sum_list (map (\<lambda>r. u r * w r) rs)
               = sum_list (map (\<lambda>r. u r * v r) rs)"
    and n2: "c1 * sum_list (map (\<lambda>r. u r * w r) rs) + c2 * sum_list (map (\<lambda>r. w r * w r) rs)
               = sum_list (map (\<lambda>r. w r * v r) rs)"
  shows "sum_list (map (\<lambda>r. (v r - c1 * u r - c2 * w r)\<^sup>2) rs)
       \<le> sum_list (map (\<lambda>r. (v r - p - q * u r - t * w r)\<^sup>2) rs)"
proof -
  let ?e = "\<lambda>r. v r - c1 * u r - c2 * w r"
  let ?d = "\<lambda>r. - p + (c1 - q) * u r + (c2 - t) * w r"
  have pointwise: "(\<lambda>r. (v r - p - q * u r - t * w r)\<^sup>2) = (\<lambda>r. (?e r + ?d r)\<^sup>2)"
    by (rule ext) (simp add: algebra_simps)
  have e0: "sum_list (map ?e rs) = 0"
    unfolding residual_sums(1) su sw sv by simp
  have eu: "sum_list (map (\<lambda>r. ?e r * u r) rs) = 0"
    unfolding residual_sums(2) using n1 by simp
  have ew: "sum_list (map (\<lambda>r. ?e r * w r) rs) = 0"
    unfolding residual_sums(3) using n2 by simp
  have cross0: "sum_list (map (\<lambda>r. ?e r * ?d r) rs) = 0"
    unfolding affine_sum e0 eu ew by simp
  have "0 \<le> sum_list (map (\<lambda>r. (?d r)\<^sup>2) rs)"
    by (rule sum_list_nonneg) auto
  then show ?thesis
    unfolding pointwise square_sum_expand cross0 by simp
qed


lemma combination_sums:
  fixes u w v :: "'a \<Rightarrow> real"
  shows "sum_list (map (\<lambda>r. (a * u r + b * w r)\<^sup>2) rs)
       = a\<^sup>2 * sum_list (map (\<lambda>r. u r * u r) rs)
         + 2 * a * b * sum_list (map (\<lambda>r. u r * w r) rs)
         + b\<^sup>2 * sum_list (map (\<lambda>r. w r * w r) rs)"
    and "sum_list (map (\<lambda>r. (a * u r + b * w r) * v r) rs)
       = a * sum_list (map (\<lambda>r. u r * v r) rs) + b * sum_list (map (\<lambda>r. w r * v r) rs)"
  by (induction rs) (simp_all add: power2_eq_square algebra_simps)

lemma vanishing_combination:
  fixes u w v :: "'a \<Rightarrow> real"
  assumes "sum_list (map (\<lambda>r. (a * u r + b * w r)\<^sup>2) rs) = 0"
  shows "a * sum_list (map (\<lambda>r. u r * v r) rs) + b * sum_list (map (\<lambda>r. w r * v r) rs) = 0"
proof -
  have "\<forall>x \<in> set (map (\<lambda>r. (a * u r + b * w r)\<^sup>2) rs). x = 0"
    using assms by (subst sum_list_nonneg_eq_0_iff[symmetric]) auto
  then have "\<forall>r \<in> set rs. a * u r + b * w r = 0" by simp
  then have "map (\<lambda>r. (a * u r + b * w r) * v r) rs = map (\<lambda>r. 0) rs"
    by (intro map_cong) simp_all
  then have "sum_list (map (\<lambda>r. (a * u r + b * w r) * v r) rs) = sum_list (map (\<lambda>r. 0) rs)"
    by (rule arg_cong)
  then have "sum_list (map (\<lambda>r. (a * u r + b * w r) * v r) rs) = 0"
    by (simp only: sum_list_0)
  then show ?thesis unfolding combination_sums(2) .
qed

lemma normal_equations:
  fixes u w v :: "'a \<Rightarrow> real" and rs :: "'a list"
  defines "Suu \<equiv> sum_list (map (\<lambda>r. u r * u r) rs)"
    and "Suw \<equiv> sum_list (map (\<lambda>r. u r * w r) rs)"
    and "Sww \<equiv> sum_list (map (\<lambda>r. w r * w r) rs)"
    and "Suy \<equiv> sum_list (map (\<lambda>r. u r * v r) rs)"
    and "Swy \<equiv> sum_list (map (\<lambda>r. w r * v r) rs)"
  assumes c: "(c1, c2) =
       (if Suu * Sww - Suw * Suw \<noteq> 0
        then ((Suy * Sww - Swy * Suw) / (Suu * Sww - Suw * Suw),
              (Swy * Suu - Suy * Suw) / (Suu * Sww - Suw * Suw))
        else if Suu + Sww \<noteq> 0 then (Suy / (Suu + Sww), Swy / (Suu + Sww))
        else (0, 0))"
  shows "c1 * Suu + c2 * Suw = Suy" and "c1 * Suw + c2 * Sww = Swy"
proof -
  have uu: "0 \<le> Suu" and ww: "0 \<le> Sww"
    unfolding Suu_def Sww_def by (rule sum_list_nonneg, auto)+
  have both: "c1 * Suu + c2 * Suw = Suy \<and> c1 * Suw + c2 * Sww = Swy"
  proof (cases "Suu * Sww - Suw * Suw = 0")
    case False
    then have c1: "c1 = (Suy * Sww - Swy * Suw) / (Suu * Sww - Suw * Suw)"
      and c2: "c2 = (Swy * Suu - Suy * Suw) / (Suu * Sww - Suw * Suw)"
      using c by simp_all
    define D where "D = Suu * Sww - Suw * Suw"
    have D: "D \<noteq> 0" using False by (simp add: D_def)
    have "c1 * Suu + c2 * Suw = (Suy * D) / D"
      unfolding c1 c2 D_def[symmetric] by (simp add: D_def algebra_simps add_divide_distrib[symmetric] diff_divide_distrib[symmetric])
    moreover have "c1 * Suw + c2 * Sww = (Swy * D) / D"
      unfolding c1 c2 D_def[symmetric] by (simp add: D_def algebra_simps add_divide_distrib[symmetric] diff_divide_distrib[symmetric])
    ultimately show ?thesis using D by simp
  next
    case det: True
    have z1: "sum_list (map (\<lambda>r. (Sww * u r + (- Suw) * w r)\<^sup>2) rs) = 0"
    proof -
      have "sum_list (map (\<lambda>r. (Sww * u r + (- Suw) * w r)\<^sup>2) rs)
          = Sww * (Suu * Sww - Suw * Suw)"
        unfolding combination_sums(1) Suu_def[symmetric] Suw_def[symmetric] Sww_def[symmetric]
        by (simp add: power2_eq_square algebra_simps)
      then show ?thesis using det by simp
    qed
    have z2: "sum_list (map (\<lambda>r. (Suw * u r + (- Suu) * w r)\<^sup>2) rs) = 0"
    proof -
      have "sum_list (map (\<lambda>r. (Suw * u r + (- Suu) * w r)\<^sup>2) rs)
          = Suu * (Suu * Sww - Suw * Suw)"
        unfolding combination_sums(1) Suu_def[symmetric] Suw_def[symmetric] Sww_def[symmetric]
        by (simp add: power2_eq_square algebra_simps)
      then show ?thesis using det by simp
    qed
    have e1: "Sww * Suy = Suw * Swy"
      using vanishing_combination[OF z1, of v] unfolding Suy_def Swy_def by simp
    have e2: "Suw * Suy = Suu * Swy"
      using vanishing_combination[OF z2, of v] unfolding Suy_def Swy_def by simp
    show ?thesis
    proof (cases "Suu + Sww = 0")
      case False
      then have c1: "c1 = Suy / (Suu + Sww)" and c2: "c2 = Swy / (Suu + Sww)"
        using c det by simp_all
      have "c1 * Suu + c2 * Suw = (Suu * Suy + Suw * Swy) / (Suu + Sww)"
        unfolding c1 c2 by (simp add: add_divide_distrib algebra_simps)
      also have "\<dots> = (Suy * (Suu + Sww)) / (Suu + Sww)"
        unfolding e1[symmetric] by (simp add: algebra_simps)
      also have "\<dots> = Suy" using False by simp
      finally have a: "c1 * Suu + c2 * Suw = Suy" .
      have "c1 * Suw + c2 * Sww = (Suw * Suy + Sww * Swy) / (Suu + Sww)"
        unfolding c1 c2 by (simp add: add_divide_distrib algebra_simps)
      also have "\<dots> = (Swy * (Suu + Sww)) / (Suu + Sww)"
        unfolding e2 by (simp add: algebra_simps)
      also have "\<dots> = Swy" using False by simp
      finally have b: "c1 * Suw + c2 * Sww = Swy" .
      show ?thesis using a b by blast
    next
      case True
      then have zu: "Suu = 0" and zw: "Sww = 0" using uu ww by linarith+
      have c0: "c1 = 0" "c2 = 0" using c det True by simp_all
      have "Suw * Suw = 0" using det zu by simp
      then have suw: "Suw = 0" by simp
      have "sum_list (map (\<lambda>r. (1 * u r + 0 * w r)\<^sup>2) rs) = 0"
        unfolding combination_sums(1) Suu_def[symmetric] using zu by simp
      from vanishing_combination[OF this, of v] have suy: "Suy = 0"
        unfolding Suy_def by simp
      have "sum_list (map (\<lambda>r. (0 * u r + 1 * w r)\<^sup>2) rs) = 0"
        unfolding combination_sums(1) Sww_def[symmetric] using zw by simp
      from vanishing_combination[OF this, of v] have swy: "Swy = 0"
        unfolding Swy_def by simp
      show ?thesis using c0 suy swy by simp
    qed
  qed
  show "c1 * Suu + c2 * Suw = Suy" and "c1 * Suw + c2 * Sww = Swy"
    using both by blast+
qed

lemma shifted_sum:
  fixes f :: "'a \<Rightarrow> real"
  shows "sum_list (map (\<lambda>r. f r - c) d) = sum_list (map f d) - real (length d) * c"
  by (induction d) (simp_all add: algebra_simps)

lemma deviations_sum:
  fixes f :: "'a \<Rightarrow> real"
  assumes "d \<noteq> []"
  shows "sum_list (map (\<lambda>r. f r - avg (map f d)) d) = 0"
  unfolding shifted_sum using assms by (simp add: avg_def)

lemma cross_maps:
  "cross (map f d) (map g d)
     = sum_list (map (\<lambda>r. (f r - avg (map f d)) * (g r - avg (map g d))) d)"
  by (simp add: cross_def zip_map_map zip_same_conv_map comp_def split_def)

lemma poly_columns:
  "map (\<lambda>row. row ! 1) (map poly_features (map x d)) = map x d"
  "map (\<lambda>row. row ! 2) (map poly_features (map x d)) = map (\<lambda>r. (x r)\<^sup>2) d"
  by (simp_all add: poly_features_def comp_def numeral_2_eq_2)

lemma sse_maps:
  "sse (map x d) (map y d) a b c
     = sum_list (map (\<lambda>r. (y r - (a + b * x r + c * (x r)\<^sup>2))\<^sup>2) d)"
  by (simp add: sse_def zip_map_map zip_same_conv_map comp_def split_def)

lemma fit_least_squares:
  fixes x y :: "'a \<Rightarrow> real"
  assumes ne: "d \<noteq> []"
  shows "\<exists>c1 c2.
           fit (map poly_features (map x d)) (map y d)
             = Inr \<lparr>coef = [0, c1, c2],
                    intercept = avg (map y d) - c1 * avg (map x d)
                                  - c2 * avg (map (\<lambda>r. (x r)\<^sup>2) d)\<rparr>
         \<and> (\<forall>p q t. sse (map x d) (map y d)
                       (avg (map y d) - c1 * avg (map x d) - c2 * avg (map (\<lambda>r. (x r)\<^sup>2) d))
                       c1 c2
                     \<le> sse (map x d) (map y d) p q t)"
proof -
  define mu where "mu = avg (map x d)"
  define mw where "mw = avg (map (\<lambda>r. (x r)\<^sup>2) d)"
  define my where "my = avg (map y d)"
  define u where "u = (\<lambda>r. x r - mu)"
  define w where "w = (\<lambda>r. (x r)\<^sup>2 - mw)"
  define v where "v = (\<lambda>r. y r - my)"
  define Suu where "Suu = sum_list (map (\<lambda>r. u r * u r) d)"
  define Suw where "Suw = sum_list (map (\<lambda>r. u r * w r) d)"
  define Sww where "Sww = sum_list (map (\<lambda>r. w r * w r) d)"
  define Suy where "Suy = sum_list (map (\<lambda>r. u r * v r) d)"
  define Swy where "Swy = sum_list (map (\<lambda>r. w r * v r) d)"
  define E where "E = (if Suu * Sww - Suw * Suw \<noteq> 0
        then ((Suy * Sww - Swy * Suw) / (Suu * Sww - Suw * Suw),
              (Swy * Suu - Suy * Suw) / (Suu * Sww - Suw * Suw))
        else if Suu + Sww \<noteq> 0 then (Suy / (Suu + Sww), Swy / (Suu + Sww))
        else (0, 0))"
  obtain c1 c2 where c: "E = (c1, c2)" by (cases E) blast
  have crosses:
    "cross (map x d) (map x d) = Suu"
    "cross (map x d) (map (\<lambda>r. (x r)\<^sup>2) d) = Suw"
    "cross (map (\<lambda>r. (x r)\<^sup>2) d) (map (\<lambda>r. (x r)\<^sup>2) d) = Sww"
    "cross (map x d) (map y d) = Suy"
    "cross (map (\<lambda>r. (x r)\<^sup>2) d) (map y d) = Swy"
    unfolding cross_maps Suu_def Suw_def Sww_def Suy_def Swy_def u_def w_def v_def
      mu_def mw_def my_def by (rule refl)+
  have "fit (map poly_features (map x d)) (map y d)
          = (case E of (c1, c2) \<Rightarrow>
               Inr \<lparr>coef = [0, c1, c2], intercept = my - c1 * mu - c2 * mw\<rparr>)"
    unfolding fit_def Let_def poly_columns crosses E_def mu_def mw_def my_def
    using ne by simp
  then have fitted: "fit (map poly_features (map x d)) (map y d)
          = Inr \<lparr>coef = [0, c1, c2], intercept = my - c1 * mu - c2 * mw\<rparr>"
    unfolding c by simp
  have normal: "c1 * Suu + c2 * Suw = Suy" "c1 * Suw + c2 * Sww = Swy"
    using normal_equations[of c1 c2 u d w v] c
    unfolding E_def Suu_def Suw_def Sww_def Suy_def Swy_def by simp_all
  have su: "sum_list (map u d) = 0" and sw: "sum_list (map w d) = 0"
    and sv: "sum_list (map v d) = 0"
    unfolding u_def w_def v_def mu_def mw_def my_def
    using deviations_sum[OF ne, of x] deviations_sum[OF ne, of "\<lambda>r. (x r)\<^sup>2"]
      deviations_sum[OF ne, of y] by simp_all
  have least: "sse (map x d) (map y d) (my - c1 * mu - c2 * mw) c1 c2
                 \<le> sse (map x d) (map y d) p q t" for p q t
  proof -
    have l: "(\<lambda>r. (y r - (my - c1 * mu - c2 * mw + c1 * x r + c2 * (x r)\<^sup>2))\<^sup>2)
           = (\<lambda>r. (v r - c1 * u r - c2 * w r)\<^sup>2)"
      by (rule ext) (simp add: u_def w_def v_def algebra_simps)
    have r: "(\<lambda>r. (y r - (p + q * x r + t * (x r)\<^sup>2))\<^sup>2)
           = (\<lambda>r. (v r - (p + q * mu + t * mw - my) - q * u r - t * w r)\<^sup>2)"
      by (rule ext) (simp add: u_def w_def v_def algebra_simps)
    show ?thesis
      unfolding sse_maps l r
      by (rule centred_least_squares[OF su sw sv])
         (use normal in \<open>simp_all add: Suu_def Suw_def Sww_def Suy_def Swy_def\<close>)
  qed
  show ?thesis
    using fitted least unfolding mu_def mw_def my_def by blast
qed

lemma predict_quadratic:
  "predict \<lparr>coef = [0, c1, c2], intercept = a\<rparr> (map (\<lambda>year. poly_features (of_int year)) ys)
     = map (\<lambda>year. a + c1 * of_int year + c2 * (of_int year)\<^sup>2) ys"
  by (simp add: predict_def dot_def poly_features_def comp_def)


lemma three_squares:
  fixes x y z :: real
  assumes "x\<^sup>2 + y\<^sup>2 + z\<^sup>2 \<le> 0"
  shows "x = 0" "y = 0" "z = 0"
proof -
  have "0 \<le> x\<^sup>2" "0 \<le> y\<^sup>2" "0 \<le> z\<^sup>2" by simp_all
  then have "x\<^sup>2 = 0" "y\<^sup>2 = 0" "z\<^sup>2 = 0" using assms by linarith+
  then show "x = 0" "y = 0" "z = 0" by simp_all
qed

lemma same_years:
  fixes other analysis_data :: "'a totals_scheme list"
  assumes "map ano other = map ano analysis_data"
  shows "map (\<lambda>r. real_of_int (ano r)) other = map (\<lambda>r. real_of_int (ano r)) analysis_data"
proof -
  have "map real_of_int (map ano other) = map real_of_int (map ano analysis_data)"
    using assms by simp
  then show ?thesis by (simp add: comp_def)
qed

text \<open>
  Claim C9. On a frame with at least one row the projector returns, for each of the two
  series, the values at the five years 2024, 2025, 2026, 2027 and 2028, in that order, of
  a quadratic \<open>a + b year + c year\<^sup>2\<close> whose sum of squared residuals on the series is
  the least among all quadratics: an ordinary least-squares fit on the basis
  \<open>[1, year, year\<^sup>2]\<close>. The two fits are independent: the projected volumes are the
  same for every frame with the same years and the same volumes, whatever its values,
  and the projected values are the same for every frame with the same years and the
  same values, whatever its volumes.
\<close>

theorem projections_least_squares:
  fixes analysis_data :: "'a totals_scheme list"
  assumes ne: "analysis_data \<noteq> []"
  shows "\<exists>a b c a' b' c'.
      create_future_projections analysis_data
        = Inr (map (\<lambda>year. a + b * of_int year + c * (of_int year)\<^sup>2)
                 [2024, 2025, 2026, 2027, 2028],
               map (\<lambda>year. a' + b' * of_int year + c' * (of_int year)\<^sup>2)
                 [2024, 2025, 2026, 2027, 2028])
    \<and> (\<forall>p q t. sse (map (\<lambda>r. of_int (ano r)) analysis_data)
                   (map volume_litros analysis_data) a b c
                 \<le> sse (map (\<lambda>r. of_int (ano r)) analysis_data)
                     (map volume_litros analysis_data) p q t)
    \<and> (\<forall>p q t. sse (map (\<lambda>r. of_int (ano r)) analysis_data)
                   (map valor_usd analysis_data) a' b' c'
                 \<le> sse (map (\<lambda>r. of_int (ano r)) analysis_data)
                     (map valor_usd analysis_data) p q t)
    \<and> (\<forall>other :: 'a totals_scheme list.
          map ano other = map ano analysis_data
          \<and> map volume_litros other = map volume_litros analysis_data
        \<longrightarrow> (\<exists>projected_value.
               create_future_projections other
                 = Inr (map (\<lambda>year. a + b * of_int year + c * (of_int year)\<^sup>2)
                          [2024, 2025, 2026, 2027, 2028],
                        projected_value)))
    \<and> (\<forall>other :: 'a totals_scheme list.
          map ano other = map ano analysis_data
          \<and> map valor_usd other = map valor_usd analysis_data
        \<longrightarrow> (\<exists>projected_volume.
               create_future_projections other
                 = Inr (projected_volume,
                        map (\<lambda>year. a' + b' * of_int year + c' * (of_int year)\<^sup>2)
                          [2024, 2025, 2026, 2027, 2028])))"
proof -
  let ?X = "map (\<lambda>r. real_of_int (ano r)) analysis_data"
  let ?sq = "map (\<lambda>r. (real_of_int (ano r))\<^sup>2) analysis_data"
  obtain b c where
    fv: "fit (map poly_features ?X) (map volume_litros analysis_data)
           = Inr \<lparr>coef = [0, b, c],
                  intercept = avg (map volume_litros analysis_data) - b * avg ?X - c * avg ?sq\<rparr>"
    and lv: "\<forall>p q t. sse ?X (map volume_litros analysis_data)
                       (avg (map volume_litros analysis_data) - b * avg ?X - c * avg ?sq) b c
                     \<le> sse ?X (map volume_litros analysis_data) p q t"
    using fit_least_squares[OF ne, of "\<lambda>r. real_of_int (ano r)" volume_litros] by blast
  obtain b' c' where
    fu: "fit (map poly_features ?X) (map valor_usd analysis_data)
           = Inr \<lparr>coef = [0, b', c'],
                  intercept = avg (map valor_usd analysis_data) - b' * avg ?X - c' * avg ?sq\<rparr>"
    and lu: "\<forall>p q t. sse ?X (map valor_usd analysis_data)
                       (avg (map valor_usd analysis_data) - b' * avg ?X - c' * avg ?sq) b' c'
                     \<le> sse ?X (map valor_usd analysis_data) p q t"
    using fit_least_squares[OF ne, of "\<lambda>r. real_of_int (ano r)" valor_usd] by blast
  define a where "a = avg (map volume_litros analysis_data) - b * avg ?X - c * avg ?sq"
  define a' where "a' = avg (map valor_usd analysis_data) - b' * avg ?X - c' * avg ?sq"
  have result: "create_future_projections analysis_data
        = Inr (map (\<lambda>year. a + b * of_int year + c * (of_int year)\<^sup>2)
                 [2024, 2025, 2026, 2027, 2028],
               map (\<lambda>year. a' + b' * of_int year + c' * (of_int year)\<^sup>2)
                 [2024, 2025, 2026, 2027, 2028])"
  proof -
    have "create_future_projections analysis_data
        = Inr (predict \<lparr>coef = [0, b, c], intercept = a\<rparr>
                 (map (\<lambda>year. poly_features (of_int year)) future_years),
               predict \<lparr>coef = [0, b', c'], intercept = a'\<rparr>
                 (map (\<lambda>year. poly_features (of_int year)) future_years))"
      unfolding create_future_projections_def Let_def fv fu a_def a'_def by simp
    then show ?thesis unfolding predict_quadratic future_years_def .
  qed
  have volume_only: "\<exists>projected_value.
               create_future_projections other
                 = Inr (map (\<lambda>year. a + b * of_int year + c * (of_int year)\<^sup>2)
                          [2024, 2025, 2026, 2027, 2028],
                        projected_value)"
    if same: "map ano other = map ano analysis_data"
      "map volume_litros other = map volume_litros analysis_data"
    for other :: "'a totals_scheme list"
  proof -
    have "other \<noteq> []" using same(1) ne by auto
    from fit_least_squares[OF this, of "\<lambda>r. real_of_int (ano r)" valor_usd]
    obtain m where m: "fit (map poly_features (map (\<lambda>r. real_of_int (ano r)) other))
                         (map valor_usd other) = Inr m"
      by blast
    have "create_future_projections other
        = Inr (predict \<lparr>coef = [0, b, c], intercept = a\<rparr>
                 (map (\<lambda>year. poly_features (of_int year)) future_years),
               predict m (map (\<lambda>year. poly_features (of_int year)) future_years))"
      unfolding create_future_projections_def Let_def same_years[OF same(1)] same(2)
        m[unfolded same_years[OF same(1)]] fv a_def by simp
    then show ?thesis unfolding predict_quadratic future_years_def by blast
  qed
  have value_only: "\<exists>projected_volume.
               create_future_projections other
                 = Inr (projected_volume,
                        map (\<lambda>year. a' + b' * of_int year + c' * (of_int year)\<^sup>2)
                          [2024, 2025, 2026, 2027, 2028])"
    if same: "map ano other = map ano analysis_data"
      "map valor_usd other = map valor_usd analysis_data"
    for other :: "'a totals_scheme list"
  proof -
    have "other \<noteq> []" using same(1) ne by auto
    from fit_least_squares[OF this, of "\<lambda>r. real_of_int (ano r)" volume_litros]
    obtain m where m: "fit (map poly_features (map (\<lambda>r. real_of_int (ano r)) other))
                         (map volume_litros other) = Inr m"
      by blast
    have "create_future_projections other
        = Inr (predict m (map (\<lambda>year. poly_features (of_int year)) future_years),
               predict \<lparr>coef = [0, b', c'], intercept = a'\<rparr>
                 (map (\<lambda>year. poly_features (of_int year)) future_years))"
      unfolding create_future_projections_def Let_def same_years[OF same(1)] same(2)
        m[unfolded same_years[OF same(1)]] fu a'_def by simp
    then show ?thesis unfolding predict_quadratic future_years_def by blast
  qed
  show ?thesis
    using result lv lu volume_only value_only unfolding a_def[symmetric] a'_def[symmetric]
    by blast
qed

theorem projections_witness:
  "create_future_projections
     [\<lparr>ano = 2021, volume_litros = 1, valor_usd = 2\<rparr>,
      \<lparr>ano = 2022, volume_litros = 4, valor_usd = 4\<rparr>,
      \<lparr>ano = 2023, volume_litros = 9, valor_usd = 6\<rparr>]
   = Inr ([16, 25, 36, 49, 64], [8, 10, 12, 14, 16])"
proof -
  let ?d = "[\<lparr>ano = 2021, volume_litros = 1, valor_usd = 2\<rparr>,
             \<lparr>ano = 2022, volume_litros = 4, valor_usd = 4\<rparr>,
             \<lparr>ano = 2023, volume_litros = 9, valor_usd = (6::real)\<rparr>]"
  have ne: "?d \<noteq> []" by simp
  obtain a b c a' b' c' where
    result: "create_future_projections ?d
        = Inr (map (\<lambda>year. a + b * of_int year + c * (of_int year)\<^sup>2)
                 [2024, 2025, 2026, 2027, 2028],
               map (\<lambda>year. a' + b' * of_int year + c' * (of_int year)\<^sup>2)
                 [2024, 2025, 2026, 2027, 2028])"
    and lv: "\<forall>p q t. sse (map (\<lambda>r. of_int (ano r)) ?d) (map volume_litros ?d) a b c
                 \<le> sse (map (\<lambda>r. of_int (ano r)) ?d) (map volume_litros ?d) p q t"
    and lu: "\<forall>p q t. sse (map (\<lambda>r. of_int (ano r)) ?d) (map valor_usd ?d) a' b' c'
                 \<le> sse (map (\<lambda>r. of_int (ano r)) ?d) (map valor_usd ?d) p q t"
    using projections_least_squares[OF ne] by blast
  have "(1 - (a + b * 2021 + c * 2021\<^sup>2))\<^sup>2 + (4 - (a + b * 2022 + c * 2022\<^sup>2))\<^sup>2
          + (9 - (a + b * 2023 + c * 2023\<^sup>2))\<^sup>2 \<le> 0"
    using lv[rule_format, of 4080400 "- 4040" 1] by (simp add: sse_def)
  from three_squares[OF this]
  have "c = 1" "b = - 4040" "a = 4080400" by simp_all
  moreover
  have "(2 - (a' + b' * 2021 + c' * 2021\<^sup>2))\<^sup>2 + (4 - (a' + b' * 2022 + c' * 2022\<^sup>2))\<^sup>2
          + (6 - (a' + b' * 2023 + c' * 2023\<^sup>2))\<^sup>2 \<le> 0"
    using lu[rule_format, of "- 4040" 2 0] by (simp add: sse_def)
  from three_squares[OF this]
  have "c' = 0" "b' = 2" "a' = - 4040" by simp_all
  ultimately show ?thesis unfolding result by simp
qed

end
